theory Spec2Isabelle
  imports Complex_Main
begin

section \<open>Python values\<close>

text \<open>
  The scripts exchange JSON documents. A decoded document is a value of \<open>json\<close>; an
  object is an association list in which the first binding of a key is the one
  \<open>dict.get\<close> returns. Numbers with a fraction are not modelled: the scripts write
  integers only. A string is a list of code points below 256.
\<close>

datatype json =
    JNull
  | JBool bool
  | JInt int
  | JStr string
  | JArr "json list"
  | JObj "(string \<times> json) list"

text \<open>The exceptions the scripts can end with.\<close>

datatype error =
    AttributeError
  | TypeError
  | ValueError
  | OverflowError
  | UnicodeDecodeError
  | OSError

text \<open>Truth value testing (\<open>not v\<close>, \<open>a or b\<close>).\<close>

fun truthy :: "json \<Rightarrow> bool" where
  "truthy JNull = False"
| "truthy (JBool b) = b"
| "truthy (JInt n) = (n \<noteq> 0)"
| "truthy (JStr s) = (s \<noteq> [])"
| "truthy (JArr xs) = (xs \<noteq> [])"
| "truthy (JObj kv) = (kv \<noteq> [])"

definition py_or :: "json \<Rightarrow> json \<Rightarrow> json" where
  "py_or a b = (if truthy a then a else b)"

text \<open>\<open>d.get(k)\<close> and \<open>d.get(k, default)\<close> on a dict.\<close>

definition dict_get :: "(string \<times> json) list \<Rightarrow> string \<Rightarrow> json" where
  "dict_get kv k = (case map_of kv k of None \<Rightarrow> JNull | Some v \<Rightarrow> v)"

definition dict_get_default :: "(string \<times> json) list \<Rightarrow> string \<Rightarrow> json \<Rightarrow> json" where
  "dict_get_default kv k d = (case map_of kv k of None \<Rightarrow> d | Some v \<Rightarrow> v)"

text \<open>\<open>isinstance(v, dict)\<close>\<close>

definition is_object :: "json \<Rightarrow> bool" where
  "is_object v = (case v of JObj kv \<Rightarrow> True | _ \<Rightarrow> False)"

text \<open>\<open>v.get(k)\<close> on an arbitrary value: only a dict has the method.\<close>

definition py_get :: "json \<Rightarrow> string \<Rightarrow> error + json" where
  "py_get v k = (case v of JObj kv \<Rightarrow> Inr (dict_get kv k) | _ \<Rightarrow> Inl AttributeError)"

text \<open>\<open>str.strip()\<close>: the code points below 256 for which \<open>str.isspace\<close> holds.\<close>

definition is_space :: "char \<Rightarrow> bool" where
  "is_space c = (let n = (of_char c :: nat) in
     (9 \<le> n \<and> n \<le> 13) \<or> (28 \<le> n \<and> n \<le> 32) \<or> n = 133 \<or> n = 160)"

definition strip :: "string \<Rightarrow> string" where
  "strip s = rev (dropWhile is_space (rev (dropWhile is_space s)))"

text \<open>Decimal rendering of integers (\<open>str(n)\<close>) and \<open>f"{n:04d}"\<close>.\<close>

definition digit_char :: "nat \<Rightarrow> char" where
  "digit_char d = ''0123456789'' ! d"

fun dec_nat :: "nat \<Rightarrow> string" where
  "dec_nat n = (if n < 10 then [digit_char n] else dec_nat (n div 10) @ [digit_char (n mod 10)])"

declare dec_nat.simps [simp del]

definition dec_int :: "int \<Rightarrow> string" where
  "dec_int i = (if i < 0 then CHR ''-'' # dec_nat (nat (- i)) else dec_nat (nat i))"

definition fmt04 :: "nat \<Rightarrow> string" where
  "fmt04 n = (let s = dec_nat n in replicate (4 - length s) CHR ''0'' @ s)"

text \<open>\<open>int(time.time())\<close>: truncation of the clock reading towards zero.\<close>

definition int_of_time :: "rat \<Rightarrow> int" where
  "int_of_time t = (if 0 \<le> t then \<lfloor>t\<rfloor> else \<lceil>t\<rceil>)"

text \<open>
  A JSON state file: absent, present with text \<open>json.loads\<close> rejects (or that cannot be
  read), or present with a document.
\<close>

datatype json_file = NoFile | Garbled | Content json

section \<open>auth\_manager.py\<close>

definition EXPIRY_SEC :: int where
  "EXPIRY_SEC = 300"

definition load_state :: "json_file \<Rightarrow> json" where
  "load_state f = (case f of NoFile \<Rightarrow> JObj [] | Garbled \<Rightarrow> JObj [] | Content v \<Rightarrow> v)"

definition save_state :: "json \<Rightarrow> json_file" where
  "save_state state = Content state"

text \<open>\<open>generate\<close>: the second argument is the value \<open>random.randint(0, 9999)\<close> returned.\<close>

definition generate :: "rat \<Rightarrow> nat \<Rightarrow> string \<times> json_file" where
  "generate now r =
     (let code = fmt04 r;
          state = JObj [(''code'', JStr code), (''expires_at'', JInt (int_of_time now + EXPIRY_SEC))]
      in (code, save_state state))"

text \<open>\<open>time.time() > v\<close> for a decoded value \<open>v\<close>: numbers and booleans compare, the rest raise.\<close>

definition time_gt :: "rat \<Rightarrow> json \<Rightarrow> error + bool" where
  "time_gt now v =
     (case v of
        JInt n \<Rightarrow> Inr (of_int n < now)
      | JBool b \<Rightarrow> Inr ((if b then 1 else 0) < now)
      | _ \<Rightarrow> Inl TypeError)"

text \<open>
  \<open>validate\<close> returns the pair \<open>(ok, message)\<close> or raises, together with the state file
  it leaves behind.
\<close>

definition validate :: "rat \<Rightarrow> string \<Rightarrow> json_file \<Rightarrow> (error + bool \<times> string) \<times> json_file" where
  "validate now submitted_code f =
     (let state = load_state f in
      if \<not> truthy state then (Inr (False, ''No active code.''), f)
      else case state of
        JObj kv \<Rightarrow>
          (case time_gt now (dict_get_default kv ''expires_at'' (JInt 0)) of
             Inl e \<Rightarrow> (Inl e, f)
           | Inr True \<Rightarrow> (Inr (False, ''Code expired.''), f)
           | Inr False \<Rightarrow>
               if JStr (strip submitted_code) = dict_get kv ''code''
               then (Inr (True, ''Code valid.''), save_state (JObj []))
               else (Inr (False, ''Code mismatch.''), f))
      | _ \<Rightarrow> (Inl AttributeError, f))"

text \<open>The stored auth state of the specification: no file, no code, or one code with its expiry.\<close>

datatype auth_state = NoAuthFile | NoCode | Issued string int

fun auth_file :: "auth_state \<Rightarrow> json_file" where
  "auth_file NoAuthFile = NoFile"
| "auth_file NoCode = Content (JObj [])"
| "auth_file (Issued c e) = Content (JObj [(''code'', JStr c), (''expires_at'', JInt e)])"

declare auth_file.simps [simp del]

section \<open>signal\_event\_store.py\<close>

text \<open>
  The dict \<open>normalize\<close> returns and \<open>publish_event\<close> stores. \<open>account\<close> and
  \<open>source_message_id\<close> are whatever the raw object held; the nested parts are decoded
  JSON values.
\<close>

record event =
  event_id :: string
  source :: string
  account :: json
  received_at :: int
  source_message_id :: json
  chat :: json
  sender :: json
  message :: json
  attachments :: json
  raw :: json

text \<open>
  A row of table \<open>signal_events\<close>. The \<open>*_json\<close> columns hold \<open>json.dumps\<close> of a
  value and every reader applies \<open>json.loads\<close>, so the model keeps the value.
\<close>

record row =
  col_id :: int
  col_event_id :: string
  col_source :: string
  col_account :: json
  col_received_at :: int
  col_source_message_id :: json
  chat_json :: json
  sender_json :: json
  message_json :: json
  attachments_json :: json
  raw_json :: json
  created_at :: int

text \<open>
  The database: the rows of \<open>signal_events\<close> in insertion order, and table
  \<open>consumer_offsets\<close> as a map from the consumer name to
  \<open>(last_event_rowid, updated_at)\<close>.
\<close>

record store =
  signal_events :: "row list"
  consumer_offsets :: "string \<Rightarrow> (int \<times> int) option"

definition init_db :: store where
  "init_db = \<lparr>signal_events = [], consumer_offsets = (\<lambda>_. None)\<rparr>"

datatype db_error = BindError

text \<open>
  What the database adapter binds to a statement parameter: \<open>None\<close>, booleans, strings,
  and integers of 64 bits. A list or a dict is refused before the statement runs.
\<close>

definition sql_int :: "int \<Rightarrow> bool" where
  "sql_int n = (- (2 ^ 63) \<le> n \<and> n < 2 ^ 63)"

fun sql_bindable :: "json \<Rightarrow> bool" where
  "sql_bindable JNull = True"
| "sql_bindable (JBool b) = True"
| "sql_bindable (JInt n) = sql_int n"
| "sql_bindable (JStr s) = True"
| "sql_bindable (JArr xs) = False"
| "sql_bindable (JObj kv) = False"

definition bindable_event :: "event \<Rightarrow> bool" where
  "bindable_event ev =
     (sql_bindable (account ev) \<and> sql_int (received_at ev) \<and> sql_bindable (source_message_id ev))"

text \<open>
  \<open>INTEGER PRIMARY KEY AUTOINCREMENT\<close>: the new id is above every id of the table. No
  statement of the scripts deletes a row, so this is one more than the largest id.
\<close>

definition next_id :: "row list \<Rightarrow> int" where
  "next_id rs = fold max (map col_id rs) 0 + 1"

definition event_stored :: "store \<Rightarrow> string \<Rightarrow> bool" where
  "event_stored db eid = (eid \<in> set (map col_event_id (signal_events db)))"

text \<open>A column declared \<open>TEXT\<close> stores a number as its decimal text.\<close>

definition text_affinity :: "json \<Rightarrow> json" where
  "text_affinity v =
     (case v of
        JInt n \<Rightarrow> JStr (dec_int n)
      | JBool b \<Rightarrow> JStr (if b then ''1'' else ''0'')
      | _ \<Rightarrow> v)"

definition new_row :: "int \<Rightarrow> int \<Rightarrow> event \<Rightarrow> row" where
  "new_row i now ev =
     \<lparr>col_id = i, col_event_id = event_id ev, col_source = source ev,
      col_account = text_affinity (account ev),
      col_received_at = received_at ev,
      col_source_message_id = text_affinity (source_message_id ev),
      chat_json = chat ev, sender_json = sender ev, message_json = message ev,
      attachments_json = attachments ev, raw_json = raw ev, created_at = now\<rparr>"

text \<open>
  \<open>publish_event\<close>: \<open>True\<close> for an insert, \<open>False\<close> when the \<open>UNIQUE\<close> constraint on
  \<open>event_id\<close> refuses it (\<open>sqlite3.IntegrityError\<close>, which the function catches); any
  other database error propagates. The clock reading is \<open>int(time.time())\<close>.
\<close>

definition publish_event :: "int \<Rightarrow> store \<Rightarrow> event \<Rightarrow> (db_error + bool) \<times> store" where
  "publish_event now db ev =
     (if \<not> bindable_event ev then (Inl BindError, db)
      else if event_stored db (event_id ev) then (Inr False, db)
      else (Inr True,
            db\<lparr>signal_events := signal_events db @ [new_row (next_id (signal_events db)) now ev]\<rparr>))"

definition get_offset :: "store \<Rightarrow> string \<Rightarrow> int" where
  "get_offset db consumer_name =
     (case consumer_offsets db consumer_name of None \<Rightarrow> 0 | Some (rowid, _) \<Rightarrow> rowid)"

definition set_offset :: "int \<Rightarrow> store \<Rightarrow> string \<Rightarrow> int \<Rightarrow> store" where
  "set_offset now db consumer_name rowid =
     db\<lparr>consumer_offsets := (consumer_offsets db)(consumer_name \<mapsto> (rowid, now))\<rparr>"

text \<open>\<open>LIMIT n\<close>: a negative \<open>n\<close> puts no bound on the number of rows.\<close>

definition sql_limit :: "int \<Rightarrow> 'a list \<Rightarrow> 'a list" where
  "sql_limit n xs = (if n < 0 then xs else take (nat n) xs)"

text \<open>
  \<open>fetch_events\<close> runs
  \<open>SELECT * FROM signal_events WHERE id > ? ORDER BY id ASC LIMIT ?\<close> with
  \<open>after_rowid\<close> and \<open>limit\<close> bound to the two parameters. The adapter binds an
  integer of 64 bits; for a larger one it raises \<open>OverflowError\<close> and the statement does
  not run.
\<close>

definition fetch_events :: "store \<Rightarrow> int \<Rightarrow> int \<Rightarrow> error + row list" where
  "fetch_events db after_rowid limit =
     (if \<not> sql_int after_rowid \<or> \<not> sql_int limit then Inl OverflowError
      else Inr (sql_limit limit
                  (sort_key col_id (filter (\<lambda>r. after_rowid < col_id r) (signal_events db)))))"

text \<open>
  The tables the scripts can build: \<open>publish_event\<close> is the only writer of
  \<open>signal_events\<close>, so a log state is the result of publishing a list of events, each at
  its clock reading, into the empty database. A refused event leaves the log as it was.
\<close>

fun publish_all :: "store \<Rightarrow> (int \<times> event) list \<Rightarrow> store" where
  "publish_all db [] = db"
| "publish_all db ((now, ev) # evs) = publish_all (snd (publish_event now db ev)) evs"

text \<open>
  The invariant of the log: ids ascend in insertion order (\<open>AUTOINCREMENT\<close>) and no
  \<open>event_id\<close> occurs twice (\<open>UNIQUE\<close>).
\<close>

definition log_ok :: "row list \<Rightarrow> bool" where
  "log_ok rs = (sorted_wrt (<) (map col_id rs) \<and> distinct (map col_event_id rs))"

text \<open>An event for the examples: message 42 of sender +1555 with text "hi".\<close>

definition example_event :: "string \<Rightarrow> json \<Rightarrow> event" where
  "example_event eid att =
     \<lparr>event_id = eid, source = ''signal'', account = JNull, received_at = 1700000000,
      source_message_id = JStr ''42'', chat = JObj [(''type'', JStr ''direct''), (''id'', JStr ''''), (''name'', JNull)],
      sender = JObj [(''id'', JStr ''+1555''), (''name'', JNull)],
      message = JObj [(''text'', JStr ''hi''), (''is_edit'', JBool False), (''is_delete'', JBool False)],
      attachments = att, raw = JObj [(''provider_payload'', JObj [])]\<rparr>"

section \<open>More Python: \<open>str\<close>, \<open>repr\<close>, \<open>int\<close>\<close>

fun join :: "string \<Rightarrow> string list \<Rightarrow> string" where
  "join sep [] = []"
| "join sep [x] = x"
| "join sep (x # y # ys) = x @ sep @ join sep (y # ys)"

definition hex_digit :: "nat \<Rightarrow> char" where
  "hex_digit d = ''0123456789abcdef'' ! d"

text \<open>
  \<open>repr\<close> of a string: single quotes, unless the string has a single quote and no
  double quote; the quote and the backslash are escaped, control characters and the
  unprintable code points are written as escapes.
\<close>

definition repr_quote :: "string \<Rightarrow> char" where
  "repr_quote s = (if CHR 0x27 \<in> set s \<and> CHR 0x22 \<notin> set s then CHR 0x22 else CHR 0x27)"

definition repr_char :: "char \<Rightarrow> char \<Rightarrow> string" where
  "repr_char q c =
     (let n = (of_char c :: nat) in
      if c = q \<or> c = CHR 0x5C then [CHR 0x5C, c]
      else if n = 9 then [CHR 0x5C, CHR ''t'']
      else if n = 10 then [CHR 0x5C, CHR ''n'']
      else if n = 13 then [CHR 0x5C, CHR ''r'']
      else if n < 32 \<or> (127 \<le> n \<and> n \<le> 160) \<or> n = 173
        then [CHR 0x5C, CHR ''x'', hex_digit (n div 16), hex_digit (n mod 16)]
      else [c])"

definition repr_str :: "string \<Rightarrow> string" where
  "repr_str s = (let q = repr_quote s in [q] @ concat (map (repr_char q) s) @ [q])"

primrec py_repr :: "json \<Rightarrow> string" where
  "py_repr JNull = ''None''"
| "py_repr (JBool b) = (if b then ''True'' else ''False'')"
| "py_repr (JInt n) = dec_int n"
| "py_repr (JStr s) = repr_str s"
| "py_repr (JArr xs) = ''['' @ join '', '' (map py_repr xs) @ '']''"
| "py_repr (JObj kv) =
     ''{'' @ join '', '' (map (\<lambda>p. repr_str (fst p) @ '': '' @ snd p) (map (map_prod id py_repr) kv)) @ ''}''"

definition py_str :: "json \<Rightarrow> string" where
  "py_str v = (case v of JStr s \<Rightarrow> s | _ \<Rightarrow> py_repr v)"


definition is_digit :: "char \<Rightarrow> bool" where
  "is_digit c = (let n = (of_char c :: nat) in 48 \<le> n \<and> n \<le> 57)"








section \<open>signal\_inbound\_collector.py\<close>

text \<open>
  The cursor file: absent, holding text that \<open>int\<close> refuses, or holding an integer (the
  empty file reads as 0).
\<close>

datatype offset_file = NoOffsetFile | BadOffset | Offset int



text \<open>
  \<open>stable_event_id\<close>. The seed is built from four strings; \<open>now\<close> is
  \<open>int(time.time())\<close>. \<open>sha256_hex\<close> stands for
  \<open>hashlib.sha256(seed.encode("utf-8")).hexdigest()\<close> and \<open>json_dumps\<close> for
  \<open>json.dumps(raw_obj, sort_keys=True, ensure_ascii=False)\<close>.
\<close>

definition stable_seed :: "int \<Rightarrow> (string \<times> json) list \<Rightarrow> error + string" where
  "stable_seed now raw_obj =
     (let src_id = py_str (py_or (py_or (dict_get raw_obj ''source_message_id'') (dict_get raw_obj ''id'')) (JStr ''''));
          ts = py_str (py_or (py_or (dict_get raw_obj ''received_at'') (dict_get raw_obj ''timestamp'')) (JInt now))
      in case py_get (py_or (dict_get raw_obj ''sender'') (JObj [])) ''id'' of
           Inl e \<Rightarrow> Inl e
         | Inr sid \<Rightarrow>
             (let sender = py_str (py_or (py_or sid (dict_get raw_obj ''sender_id'')) (JStr ''''))
              in case py_get (py_or (dict_get raw_obj ''message'') (JObj [])) ''text'' of
                   Inl e \<Rightarrow> Inl e
                 | Inr mt \<Rightarrow>
                     (let text = py_str (py_or (py_or mt (dict_get raw_obj ''text'')) (JStr ''''))
                      in Inr (join ''|'' [src_id, ts, sender, text]))))"

definition stable_event_id ::
  "(string \<Rightarrow> string) \<Rightarrow> (json \<Rightarrow> string) \<Rightarrow> int \<Rightarrow> (string \<times> json) list \<Rightarrow> error + string" where
  "stable_event_id sha256_hex json_dumps now raw_obj =
     (case stable_seed now raw_obj of
        Inl e \<Rightarrow> Inl e
      | Inr seed \<Rightarrow>
          Inr (sha256_hex (if seed = ''|||'' then json_dumps (JObj raw_obj) else seed)))"


text \<open>
  The raw JSONL file is a sequence of bytes, and an offset counts bytes. The file is opened
  as text in UTF-8: the bytes from the offset on are decoded to code points (integers), and a byte
  sequence that is not well-formed UTF-8 (a stray continuation byte, a truncated or
  overlong sequence, a surrogate, a code point above U+10FFFF) raises
  \<open>UnicodeDecodeError\<close>.
\<close>

type_synonym unicode = "int list"













record collector_env =
  json_loads :: "unicode \<Rightarrow> error + json option"
  sha256_hex :: "string \<Rightarrow> string"
  json_dumps :: "json \<Rightarrow> string"
  account_arg :: string
  clock :: int










section \<open>Paths and patterns\<close>

text \<open>
  \<open>pathlib\<close>: the name of a path is its last component, where empty components and
  \<open>.\<close> are dropped; the suffix of a name starts at its last dot, unless that dot is the
  first or the last character.
\<close>

fun split_path :: "string \<Rightarrow> string list" where
  "split_path [] = [[]]"
| "split_path (c # cs) =
     (if c = CHR ''/'' then [] # split_path cs
      else (case split_path cs of [] \<Rightarrow> [[c]] | l # ls \<Rightarrow> (c # l) # ls))"

definition path_name :: "string \<Rightarrow> string" where
  "path_name p =
     (case rev (filter (\<lambda>c. c \<noteq> [] \<and> c \<noteq> ''.'') (split_path p)) of
        [] \<Rightarrow> []
      | n # _ \<Rightarrow> n)"

definition name_suffix :: "string \<Rightarrow> string" where
  "name_suffix name =
     (let ext = takeWhile (\<lambda>c. c \<noteq> CHR ''.'') (rev name);
          i = length name - length ext - 1
      in if CHR ''.'' \<in> set name \<and> 0 < i \<and> ext \<noteq> [] then drop i name else [])"

definition path_suffix :: "string \<Rightarrow> string" where
  "path_suffix p = name_suffix (path_name p)"

text \<open>\<open>str.lower()\<close> on the code points below 256.\<close>

definition lower_char :: "char \<Rightarrow> char" where
  "lower_char c =
     (let n = (of_char c :: nat) in
      if (65 \<le> n \<and> n \<le> 90) \<or> (192 \<le> n \<and> n \<le> 222 \<and> n \<noteq> 215) then char_of (n + 32) else c)"

definition lower :: "string \<Rightarrow> string" where
  "lower s = map lower_char s"

text \<open>\<open>re.fullmatch(r"\d{4}", s)\<close>.\<close>

definition four_digits :: "string \<Rightarrow> bool" where
  "four_digits s = (length s = 4 \<and> list_all is_digit s)"

text \<open>
  \<open>CODE_RE.match(text)\<close> with \<open>CODE_RE = ^\s*(\d{4})\s*$\<close>: the group, when the text
  is four digits between white space.
\<close>

definition code_match :: "string \<Rightarrow> string option" where
  "code_match text = (let s = strip text in if four_digits s then Some s else None)"

section \<open>signal\_event\_consumer\_sigpro.py\<close>

definition TARGET_USER :: string where
  "TARGET_USER = ''+19412907826''"

definition VOICE_EXTENSIONS :: "string list" where
  "VOICE_EXTENSIONS = [''.m4a'', ''.opus'', ''.ogg'', ''.oga'', ''.aac'', ''.mp3'', ''.wav'', ''.webm'']"

text \<open>
  The messages the scripts send, by what they carry: the code on WhatsApp, the request
  for the code, "Auth failed: reason", "Auth accepted, but no pending transcript was
  found.", and the summary of an executed request (the first 500 characters of the
  transcript and the assistant's output).
\<close>

datatype notice =
    AuthCodeNotice string
  | CodeRequiredNotice
  | AuthFailedNotice string
  | NoTranscriptNotice
  | ExecutedNotice string string

text \<open>An entry of the failure log, with the keys \<open>ts\<close>, \<open>reason\<close>, \<open>code\<close>, \<open>message_id\<close>.\<close>

record failure_entry =
  entry_ts :: int
  entry_reason :: string
  entry_code :: "string option"
  entry_message_id :: json

text \<open>
  What the workflow scripts read and write: the database, the auth state file, the
  pending transcript file, the failure log, the messages sent, and (for the cron loop)
  the file naming the last attachment handled.
\<close>

record sigpro_state =
  conn :: store
  auth_state :: json_file
  pending :: json_file
  auth_failures :: "failure_entry list"
  outbox :: "(string \<times> notice) list"
  last_attachment :: "string option"

text \<open>
  What the agent process leaves for \<open>_execute_in_main\<close>: an exit status other than 0,
  output that \<open>json.loads\<close> rejects, or a document.
\<close>

datatype agent_result = AgentFailed | AgentGarbled | AgentPrinted json

text \<open>
  What a run finds around it: the clock, the number \<open>random.randint\<close> returns inside
  \<open>generate\<close>, whether the auth script can be started and exits with status 0, the
  answer of \<open>Path(p).exists()\<close> (it raises \<open>OSError\<close> when the file system refuses
  the path, as for a name that is too long), the text the transcriber leaves for an audio
  file (\<open>None\<close> when it exits with an error or leaves no file), what the agent leaves
  for a transcript, and the regular files of the attachment directory by modification
  time (\<open>None\<close> when the directory is missing).
\<close>

record sigpro_env =
  time_now :: rat
  randint :: nat
  auth_script_runs :: bool
  path_exists :: "string \<Rightarrow> error + bool"
  transcriber :: "string \<Rightarrow> string option"
  agent :: "string \<Rightarrow> agent_result"
  attachment_dir :: "string list option"

definition send_message :: "string \<Rightarrow> notice \<Rightarrow> sigpro_state \<Rightarrow> sigpro_state" where
  "send_message channel text st = st\<lparr>outbox := outbox st @ [(channel, text)]\<rparr>"

definition log_auth_failure ::
  "sigpro_env \<Rightarrow> string \<Rightarrow> string option \<Rightarrow> json \<Rightarrow> sigpro_state \<Rightarrow> sigpro_state" where
  "log_auth_failure env why c mid st =
     st\<lparr>auth_failures := auth_failures st
          @ [\<lparr>entry_ts = int_of_time (time_now env), entry_reason = why, entry_code = c,
               entry_message_id = mid\<rparr>]\<rparr>"

definition transcribe :: "sigpro_env \<Rightarrow> string \<Rightarrow> string option" where
  "transcribe env path =
     (case transcriber env path of
        None \<Rightarrow> None
      | Some out \<Rightarrow> (let text = strip out in if text = [] then None else Some text))"

text \<open>\<open>_generate_auth_code\<close> runs \<open>auth_manager.py generate\<close> and checks what it printed.\<close>

definition generate_auth_code :: "sigpro_env \<Rightarrow> sigpro_state \<Rightarrow> string option \<times> sigpro_state" where
  "generate_auth_code env st =
     (if \<not> auth_script_runs env then (None, st)
      else (let (printed, f) = generate (time_now env) (randint env);
                c = strip printed
            in (if four_digits c then Some c else None, st\<lparr>auth_state := f\<rparr>)))"

text \<open>
  \<open>_validate_code\<close> runs \<open>auth_manager.py validate code\<close>; an exception in the script
  is a non-zero exit status.
\<close>

definition validate_code :: "sigpro_env \<Rightarrow> string \<Rightarrow> sigpro_state \<Rightarrow> (bool \<times> string) \<times> sigpro_state" where
  "validate_code env c st =
     (if \<not> auth_script_runs env then ((False, ''Internal validation error.''), st)
      else case validate (time_now env) c (auth_state st) of
             (Inl e, f) \<Rightarrow> ((False, ''Internal validation error.''), st\<lparr>auth_state := f\<rparr>)
           | (Inr (ok, msg), f) \<Rightarrow>
               ((ok, if msg = [] then ''Invalid code.'' else msg), st\<lparr>auth_state := f\<rparr>))"

definition store_pending_transcript ::
  "sigpro_env \<Rightarrow> string \<Rightarrow> string \<Rightarrow> json \<Rightarrow> sigpro_state \<Rightarrow> sigpro_state" where
  "store_pending_transcript env transcript source_file smid st =
     st\<lparr>pending := Content (JObj
          [(''transcript'', JStr transcript),
           (''source_file'', JStr source_file),
           (''source_message_id'', smid),
           (''created_at'', JInt (int_of_time (time_now env))),
           (''expires_in_sec'', JInt 300)])\<rparr>"

text \<open>\<open>PENDING_FILE.exists()\<close>\<close>

definition pending_exists :: "sigpro_state \<Rightarrow> bool" where
  "pending_exists st = (pending st \<noteq> NoFile)"

text \<open>
  The suffix test of the attachment loop: \<open>Path(filename).suffix.lower()\<close> when the
  file name is given, the suffix of the path otherwise. \<open>Path\<close> takes a string only.
\<close>

definition attachment_suffix :: "json \<Rightarrow> json \<Rightarrow> error + string" where
  "attachment_suffix filename path =
     (if truthy filename
      then (case filename of JStr f \<Rightarrow> Inr (lower (path_suffix f)) | _ \<Rightarrow> Inl TypeError)
      else (case py_or path (JStr []) of JStr p \<Rightarrow> Inr (lower (path_suffix p)) | _ \<Rightarrow> Inl TypeError))"

text \<open>
  The loop over the attachments in \<open>handle_voice_event\<close>. An element that is not a dict
  has no \<open>get\<close>, and what \<open>Path(path).exists()\<close> raises ends the loop.
\<close>

fun voice_attachments ::
  "sigpro_env \<Rightarrow> row \<Rightarrow> json list \<Rightarrow> sigpro_state \<Rightarrow> (error + unit) \<times> sigpro_state" where
  "voice_attachments env r [] st = (Inr (), st)"
| "voice_attachments env r (a # rest) st =
     (case a of
        JObj kv \<Rightarrow>
          (let path = dict_get kv ''path'';
               filename = py_or (dict_get kv ''filename'') (JStr [])
           in case attachment_suffix filename path of
                Inl e \<Rightarrow> (Inl e, st)
              | Inr suffix \<Rightarrow>
                  if suffix \<notin> set VOICE_EXTENSIONS then voice_attachments env r rest st
                  else if \<not> truthy path then voice_attachments env r rest st
                  else (case path of
                          JStr p \<Rightarrow>
                            (case path_exists env p of
                               Inl e \<Rightarrow> (Inl e, st)
                             | Inr False \<Rightarrow> voice_attachments env r rest st
                             | Inr True \<Rightarrow>
                                 (case transcribe env p of
                                    None \<Rightarrow> (Inr (), st)
                                  | Some transcript \<Rightarrow>
                                      (case generate_auth_code env st of
                                         (None, st1) \<Rightarrow>
                                           (Inr (), log_auth_failure env ''code_generation_failed'' None
                                                      (col_source_message_id r) st1)
                                       | (Some c, st1) \<Rightarrow>
                                           (Inr (),
                                            send_message ''signal'' CodeRequiredNotice
                                              (send_message ''whatsapp'' (AuthCodeNotice c)
                                                 (store_pending_transcript env transcript
                                                    (if truthy filename then py_str filename else path_name p)
                                                    (col_source_message_id r) st1))))))
                        | _ \<Rightarrow> (Inl TypeError, st)))
      | _ \<Rightarrow> (Inl AttributeError, st))"

text \<open>
  \<open>handle_voice_event\<close>. Iterating a decoded value that is not a list: a dict yields
  its keys and a string its characters, which have no \<open>get\<close>; a number is not iterable.
\<close>

definition handle_voice_event :: "sigpro_env \<Rightarrow> row \<Rightarrow> sigpro_state \<Rightarrow> (error + unit) \<times> sigpro_state" where
  "handle_voice_event env r st =
     (let atts = attachments_json r in
      if \<not> truthy atts then (Inr (), st)
      else if pending_exists st then (Inr (), st)
      else case atts of
             JArr xs \<Rightarrow> voice_attachments env r xs st
           | JObj kv \<Rightarrow> (Inl AttributeError, st)
           | JStr s \<Rightarrow> (Inl AttributeError, st)
           | _ \<Rightarrow> (Inl TypeError, st))"

text \<open>
  \<open>_extract_text_candidates\<close>: the stripped, non-blank strings under the six keys of
  every object of the document, in the order of the walk, without repetitions.
\<close>

definition text_of :: "json \<Rightarrow> string list" where
  "text_of v = (case v of JStr s \<Rightarrow> (if strip s = [] then [] else [strip s]) | _ \<Rightarrow> [])"

definition texts_under :: "string list \<Rightarrow> (string \<times> json) list \<Rightarrow> string list" where
  "texts_under keys kv = concat (map (\<lambda>k. text_of (dict_get kv k)) keys)"

primrec walk :: "json \<Rightarrow> string list" where
  "walk JNull = []"
| "walk (JBool b) = []"
| "walk (JInt n) = []"
| "walk (JStr s) = []"
| "walk (JArr xs) = concat (map walk xs)"
| "walk (JObj kv) =
     texts_under [''final'', ''reply'', ''text'', ''message'', ''content'', ''output''] kv
     @ concat (map snd (map (map_prod id walk) kv))"

fun dedup :: "string list \<Rightarrow> string list \<Rightarrow> string list" where
  "dedup seen [] = []"
| "dedup seen (s # out) = (if s \<in> set seen then dedup seen out else s # dedup (s # seen) out)"

definition extract_text_candidates :: "json \<Rightarrow> string list" where
  "extract_text_candidates obj = dedup [] (walk obj)"

text \<open>\<open>_best_assistant_text\<close>: a payload that is not a dict has no \<open>get\<close>.\<close>

definition best_assistant_text :: "json \<Rightarrow> error + string" where
  "best_assistant_text payload =
     (case payload of
        JObj kv \<Rightarrow>
          (case texts_under [''final'', ''reply'', ''text'', ''message''] kv of
             v # _ \<Rightarrow> Inr v
           | [] \<Rightarrow>
               (let candidates = extract_text_candidates payload in
                case filter (\<lambda>c. lower c \<notin> set [''execution completed.'', ''execution completed''])
                       candidates of
                  c # _ \<Rightarrow> Inr c
                | [] \<Rightarrow> Inr (case candidates of [] \<Rightarrow> [] | c # _ \<Rightarrow> c)))
      | _ \<Rightarrow> Inl AttributeError)"

text \<open>
  \<open>_execute_in_main\<close>. The transcript is an argument of the agent process, and a process
  cannot be started with a NUL character in an argument (\<open>ValueError\<close>).
\<close>

definition execute_in_main :: "sigpro_env \<Rightarrow> string \<Rightarrow> error + string" where
  "execute_in_main env transcript =
     (if CHR 0x00 \<in> set transcript then Inl ValueError
      else case agent env transcript of
             AgentFailed \<Rightarrow> Inr ''Execution was triggered, but no assistant output was returned.''
           | AgentGarbled \<Rightarrow> Inr ''Execution completed, but assistant output could not be parsed.''
           | AgentPrinted payload \<Rightarrow>
               (case best_assistant_text payload of
                  Inl e \<Rightarrow> Inl e
                | Inr assistant_text \<Rightarrow>
                    Inr (if assistant_text = []
                         then ''Execution completed, but no assistant text was returned.''
                         else take 3000 assistant_text)))"

text \<open>
  The summary message is cut after 3500 characters, of which 85 are fixed text and up to
  500 the transcript: what is sent of the assistant's output.
\<close>

definition sent_summary :: "string \<Rightarrow> string \<Rightarrow> string" where
  "sent_summary transcript summary = take (3415 - length (take 500 transcript)) summary"

text \<open>
  The transcript \<open>handle_code_event\<close> reads back: any failure to read, decode or look
  up is caught and gives the empty string. What \<open>_execute_in_main\<close> raises is not
  caught, nor is the \<open>ValueError\<close> of a summary message with a NUL character; the code
  has been used by then and the pending file is still in place.
\<close>

definition pending_transcript :: "json_file \<Rightarrow> string" where
  "pending_transcript f =
     (case f of
        Content (JObj kv) \<Rightarrow> strip (py_str (py_or (dict_get kv ''transcript'') (JStr [])))
      | _ \<Rightarrow> [])"

definition handle_code_event :: "sigpro_env \<Rightarrow> row \<Rightarrow> sigpro_state \<Rightarrow> (error + unit) \<times> sigpro_state" where
  "handle_code_event env r st =
     (if \<not> pending_exists st then (Inr (), st)
      else case message_json r of
             JObj msg \<Rightarrow>
               (case code_match (py_str (py_or (dict_get msg ''text'') (JStr []))) of
                  None \<Rightarrow> (Inr (), st)
                | Some c \<Rightarrow>
                    (case validate_code env c st of
                       ((False, why), st1) \<Rightarrow>
                         (Inr (),
                          send_message ''signal'' (AuthFailedNotice why)
                            (log_auth_failure env why (Some c) (col_source_message_id r) st1))
                     | ((True, why), st1) \<Rightarrow>
                         (let transcript = pending_transcript (pending st1) in
                          if transcript = []
                          then (Inr (),
                                send_message ''signal'' NoTranscriptNotice
                                  (log_auth_failure env ''pending_transcript_missing_or_invalid'' (Some c)
                                     (col_source_message_id r) st1))
                          else (case execute_in_main env transcript of
                                  Inl e \<Rightarrow> (Inl e, st1)
                                | Inr summary \<Rightarrow>
                                    if CHR 0x00 \<in> set (sent_summary transcript summary)
                                    then (Inl ValueError, st1)
                                    else (let st2 = send_message ''signal''
                                                      (ExecutedNotice (take 500 transcript)
                                                         (sent_summary transcript summary)) st1
                                          in (Inr (), st2\<lparr>pending := NoFile\<rparr>))))))
           | _ \<Rightarrow> (Inl AttributeError, st))"

definition is_from_target_sender :: "row \<Rightarrow> error + bool" where
  "is_from_target_sender r =
     (case sender_json r of
        JObj snd_obj \<Rightarrow> Inr (strip (py_str (py_or (dict_get snd_obj ''id'') (JStr []))) = TARGET_USER)
      | _ \<Rightarrow> Inl AttributeError)"

definition advance_offset :: "sigpro_env \<Rightarrow> string \<Rightarrow> row \<Rightarrow> sigpro_state \<Rightarrow> sigpro_state" where
  "advance_offset env consumer r st =
     st\<lparr>conn := set_offset (int_of_time (time_now env)) (conn st) consumer (col_id r)\<rparr>"

text \<open>The body of the loop of \<open>main\<close> for one row.\<close>

definition process_row ::
  "sigpro_env \<Rightarrow> string \<Rightarrow> row \<Rightarrow> sigpro_state \<Rightarrow> (error + unit) \<times> sigpro_state" where
  "process_row env consumer r st =
     (case is_from_target_sender r of
        Inl e \<Rightarrow> (Inl e, st)
      | Inr False \<Rightarrow> (Inr (), advance_offset env consumer r st)
      | Inr True \<Rightarrow>
          (case handle_voice_event env r st of
             (Inl e, st1) \<Rightarrow> (Inl e, st1)
           | (Inr u, st1) \<Rightarrow>
               (case handle_code_event env r st1 of
                  (Inl e, st2) \<Rightarrow> (Inl e, st2)
                | (Inr u', st2) \<Rightarrow> (Inr (), advance_offset env consumer r st2))))"

text \<open>The loop: nothing catches an exception, so the first one ends the run.\<close>

fun process_rows ::
  "sigpro_env \<Rightarrow> string \<Rightarrow> row list \<Rightarrow> sigpro_state \<Rightarrow> (error + unit) \<times> sigpro_state" where
  "process_rows env consumer [] st = (Inr (), st)"
| "process_rows env consumer (r # rs) st =
     (case process_row env consumer r st of
        (Inl e, st1) \<Rightarrow> (Inl e, st1)
      | (Inr u, st1) \<Rightarrow> process_rows env consumer rs st1)"

text \<open>\<open>main\<close> with the options \<open>--consumer\<close> and \<open>--limit\<close>.\<close>

definition consumer_main ::
  "sigpro_env \<Rightarrow> string \<Rightarrow> int \<Rightarrow> sigpro_state \<Rightarrow> (error + unit) \<times> sigpro_state" where
  "consumer_main env consumer limit st =
     (case fetch_events (conn st) (get_offset (conn st) consumer) limit of
        Inl e \<Rightarrow> (Inl e, st)
      | Inr rows \<Rightarrow> process_rows env consumer rows st)"

text \<open>
  The shape \<open>normalize\<close> gives a row when the raw attachments are objects whose
  \<open>filename\<close> and \<open>path\<close> are strings or absent: sender and message are objects, the
  attachments a list of such objects.
\<close>

definition str_or_falsy :: "json \<Rightarrow> bool" where
  "str_or_falsy v = (case v of JStr s \<Rightarrow> True | _ \<Rightarrow> \<not> truthy v)"

definition attachment_ok :: "json \<Rightarrow> bool" where
  "attachment_ok a =
     (case a of
        JObj kv \<Rightarrow> str_or_falsy (dict_get kv ''filename'') \<and> str_or_falsy (dict_get kv ''path'')
      | _ \<Rightarrow> False)"

definition well_shaped_row :: "row \<Rightarrow> bool" where
  "well_shaped_row r =
     (is_object (sender_json r) \<and> is_object (message_json r)
      \<and> (case attachments_json r of JArr xs \<Rightarrow> list_all attachment_ok xs | _ \<Rightarrow> False))"

text \<open>The probe \<open>Path(path).exists()\<close> raises on no path of the attachments of the row.\<close>

definition probe_quiet :: "sigpro_env \<Rightarrow> json \<Rightarrow> bool" where
  "probe_quiet env a =
     (case a of
        JObj kv \<Rightarrow>
          (case dict_get kv ''path'' of
             JStr p \<Rightarrow> (case path_exists env p of Inl e \<Rightarrow> False | Inr b \<Rightarrow> True)
           | _ \<Rightarrow> True)
      | _ \<Rightarrow> True)"

definition probes_quiet :: "sigpro_env \<Rightarrow> row \<Rightarrow> bool" where
  "probes_quiet env r =
     (case attachments_json r of JArr xs \<Rightarrow> list_all (probe_quiet env) xs | _ \<Rightarrow> True)"
section \<open>sigpro\_loop.py\<close>

definition ATTACHMENT_DIR :: string where
  "ATTACHMENT_DIR = ''/home/james/.local/share/signal-cli/attachments''"

text \<open>\<open>_read_text\<close>: the stripped text of a file, the empty string when it is missing.\<close>

definition read_text :: "string option \<Rightarrow> string" where
  "read_text f = (case f of None \<Rightarrow> [] | Some s \<Rightarrow> strip s)"

definition is_voice_file :: "string \<Rightarrow> bool" where
  "is_voice_file name = (lower (name_suffix name) \<in> set VOICE_EXTENSIONS)"

text \<open>
  \<open>_find_newest_unprocessed_attachment\<close>: the file after the one named in the state
  file; the newest when that name is not in the directory; on the first run the newest is
  only recorded.
\<close>

definition find_newest_unprocessed_attachment ::
  "sigpro_env \<Rightarrow> sigpro_state \<Rightarrow> string option \<times> sigpro_state" where
  "find_newest_unprocessed_attachment env st =
     (case attachment_dir env of
        None \<Rightarrow> (None, st)
      | Some names \<Rightarrow>
          (let files = filter is_voice_file names in
           if files = [] then (None, st)
           else (let last_name = read_text (last_attachment st) in
                 if last_name = [] then (None, st\<lparr>last_attachment := Some (last files)\<rparr>)
                 else (case dropWhile (\<lambda>n. n \<noteq> last_name) files of
                         [] \<Rightarrow> (Some (last files), st)
                       | [seen] \<Rightarrow> (None, st)
                       | seen # p # later \<Rightarrow> (Some p, st)))))"

text \<open>\<open>_store_pending_transcript\<close> of this script writes no \<open>source_message_id\<close>.\<close>

definition store_pending_transcript_loop ::
  "sigpro_env \<Rightarrow> string \<Rightarrow> string \<Rightarrow> sigpro_state \<Rightarrow> sigpro_state" where
  "store_pending_transcript_loop env transcript source_file st =
     st\<lparr>pending := Content (JObj
          [(''transcript'', JStr transcript),
           (''source_file'', JStr source_file),
           (''created_at'', JInt (int_of_time (time_now env))),
           (''expires_in_sec'', JInt 300)])\<rparr>"

text \<open>\<open>_process_new_voice_note\<close>: the state of the pending file is not consulted.\<close>

definition process_new_voice_note :: "sigpro_env \<Rightarrow> sigpro_state \<Rightarrow> bool \<times> sigpro_state" where
  "process_new_voice_note env st =
     (case find_newest_unprocessed_attachment env st of
        (None, st1) \<Rightarrow> (False, st1)
      | (Some name, st1) \<Rightarrow>
          (let transcript = transcribe env (ATTACHMENT_DIR @ ''/'' @ name);
               st2 = st1\<lparr>last_attachment := Some name\<rparr>
           in case transcript of
                None \<Rightarrow> (True, st2)
              | Some text \<Rightarrow>
                  (case generate_auth_code env st2 of
                     (None, st3) \<Rightarrow> (True, log_auth_failure env ''code_generation_failed'' None JNull st3)
                   | (Some c, st3) \<Rightarrow>
                       (True,
                        send_message ''signal'' CodeRequiredNotice
                          (send_message ''whatsapp'' (AuthCodeNotice c)
                             (store_pending_transcript_loop env text name st3))))))"

section \<open>Examples for the workflow\<close>

text \<open>
  An environment in which every collaborator works: the clock reads 1200, the generator
  draws 7, the transcriber hears "lights on", the agent replies "done". Every path
  exists, except that the file system refuses a name of more than 255 characters.
\<close>

definition example_sigpro_env :: sigpro_env where
  "example_sigpro_env =
     \<lparr>time_now = 1200, randint = 7, auth_script_runs = True,
      path_exists = (\<lambda>p. if list_all (\<lambda>n. length n \<le> 255) (split_path p) then Inr True else Inl OSError),
      transcriber = (\<lambda>p. Some ''lights on''),
      agent = (\<lambda>t. AgentPrinted (JObj [(''reply'', JStr ''done'')])),
      attachment_dir = Some [''old.ogg'', ''new.ogg'']\<rparr>"

text \<open>A request "open the door" waits for the code 0451, which expires at 1300.\<close>

definition example_pending :: json_file where
  "example_pending = Content (JObj
     [(''transcript'', JStr ''open the door''), (''source_file'', JStr ''old.ogg''),
      (''source_message_id'', JStr ''41''), (''created_at'', JInt 1000), (''expires_in_sec'', JInt 300)])"

definition example_waiting :: sigpro_state where
  "example_waiting =
     \<lparr>conn = init_db, auth_state = auth_file (Issued ''0451'' 1300), pending = example_pending,
      auth_failures = [], outbox = [], last_attachment = Some ''old.ogg''\<rparr>"

text \<open>Rows of the log: sender, text and attachments vary.\<close>

definition example_row :: "int \<Rightarrow> string \<Rightarrow> string \<Rightarrow> json \<Rightarrow> row" where
  "example_row i sid text atts =
     \<lparr>col_id = i, col_event_id = dec_int i, col_source = ''signal'', col_account = JNull,
      col_received_at = 1100, col_source_message_id = JStr (dec_int i),
      chat_json = JObj [(''type'', JStr ''direct''), (''id'', JStr []), (''name'', JNull)],
      sender_json = JObj [(''id'', JStr sid), (''name'', JNull)],
      message_json = JObj [(''text'', JStr text), (''is_edit'', JBool False), (''is_delete'', JBool False)],
      attachments_json = atts, raw_json = JObj [], created_at = 1100\<rparr>"

definition voice_attachment :: json where
  "voice_attachment = JArr [JObj [(''path'', JStr ''/att/new.ogg''), (''filename'', JStr ''new.ogg'')]]"

text \<open>
  Two events of the authorized sender as the collector stores them: the first lists its
  attachment as a bare file name, the second is a voice note.
\<close>

definition user_event :: "string \<Rightarrow> json \<Rightarrow> event" where
  "user_event eid att = (example_event eid att)\<lparr>sender := JObj [(''id'', JStr TARGET_USER), (''name'', JNull)]\<rparr>"

definition example_log :: store where
  "example_log = publish_all init_db
     [(1000, user_event ''e1'' (JArr [JStr ''new.ogg''])), (1001, user_event ''e2'' voice_attachment)]"

definition example_idle :: sigpro_state where
  "example_idle =
     \<lparr>conn = example_log, auth_state = NoFile, pending = NoFile, auth_failures = [], outbox = [],
      last_attachment = None\<rparr>"



text \<open>An environment in which the collaborators fail: no transcript, no auth script.\<close>

definition failing_env :: sigpro_env where
  "failing_env = example_sigpro_env\<lparr>transcriber := (\<lambda>p. None), auth_script_runs := False\<rparr>"

text \<open>The pending file holds a transcript of white space only.\<close>

definition blank_pending :: sigpro_state where
  "blank_pending = example_waiting\<lparr>pending := Content (JObj [(''transcript'', JStr ''  '')])\<rparr>"

text \<open>A voice attachment whose file name has 260 characters.\<close>

definition long_name_attachment :: json where
  "long_name_attachment = JArr [JObj [(''path'', JStr (''/att/'' @ replicate 256 CHR ''a'' @ ''.ogg''))]]"

text \<open>An environment in which the agent prints a list instead of an object.\<close>

definition list_agent_env :: sigpro_env where
  "list_agent_env = example_sigpro_env\<lparr>agent := (\<lambda>t. AgentPrinted (JArr [JStr ''done'']))\<rparr>"
section \<open>Properties of the auth code manager\<close>

lemma validate_no_state:
  "\<not> truthy (load_state f) \<Longrightarrow> validate now s f = (Inr (False, ''No active code.''), f)"
  by (simp add: validate_def)

lemma validate_issued:
  "validate now s (auth_file (Issued c e)) =
     (if of_int e < now then (Inr (False, ''Code expired.''), auth_file (Issued c e))
      else if strip s = c then (Inr (True, ''Code valid.''), auth_file NoCode)
      else (Inr (False, ''Code mismatch.''), auth_file (Issued c e)))"
  by (simp add: validate_def load_state_def save_state_def time_gt_def
      dict_get_default_def dict_get_def auth_file.simps)

text \<open>
  C2. For every stored auth state and submitted string: with no code stored validate
  fails with "No active code."; with a code stored it fails with "Code expired." when
  the clock is past the expiry and leaves the code in place; otherwise it fails with
  "Code mismatch." when the stripped submission differs from the code; otherwise it
  succeeds and clears the code, and a repeated validate, at any later clock reading,
  fails with "No active code.".
\<close>

theorem validate_outcomes:
  "validate now s (auth_file a) =
     (case a of
        NoAuthFile \<Rightarrow> (Inr (False, ''No active code.''), auth_file NoAuthFile)
      | NoCode \<Rightarrow> (Inr (False, ''No active code.''), auth_file NoCode)
      | Issued c e \<Rightarrow>
          if of_int e < now then (Inr (False, ''Code expired.''), auth_file (Issued c e))
          else if strip s \<noteq> c then (Inr (False, ''Code mismatch.''), auth_file (Issued c e))
          else (Inr (True, ''Code valid.''), auth_file NoCode))
   \<and> (fst (validate now s (auth_file a)) = Inr (True, ''Code valid.'')
        \<longrightarrow> validate later s (snd (validate now s (auth_file a)))
              = (Inr (False, ''No active code.''), auth_file NoCode))"
proof -
  have nocode: "validate t s (auth_file NoCode) = (Inr (False, ''No active code.''), auth_file NoCode)"
    for t by (simp add: validate_no_state load_state_def auth_file.simps)
  show ?thesis
  proof (cases a)
    case NoAuthFile
    then show ?thesis by (simp add: validate_no_state load_state_def auth_file.simps)
  next
    case NoCode
    then show ?thesis using nocode by simp
  next
    case (Issued c e)
    show ?thesis
    proof (cases "of_int e < now")
      case True
      with Issued show ?thesis by (simp add: validate_issued)
    next
      case False
      show ?thesis
      proof (cases "strip s = c")
        case True
        with Issued \<open>\<not> of_int e < now\<close> show ?thesis
          using nocode [of later] by (simp add: validate_issued)
      next
        case False
        with Issued \<open>\<not> of_int e < now\<close> show ?thesis
          by (simp add: validate_issued)
      qed
    qed
  qed
qed

text \<open>
  The scenario of the specification: a code "0451" issued at t = 1000 with the TTL of
  300 seconds is accepted at t = 1200 and refused at t = 1201.
\<close>

theorem validate_outcomes_witness:
  "generate 1000 451 = (''0451'', auth_file (Issued ''0451'' 1300))
   \<and> validate 1200 ''0451'' (auth_file (Issued ''0451'' 1300)) = (Inr (True, ''Code valid.''), auth_file NoCode)
   \<and> validate 1201 ''0451'' (snd (validate 1200 ''0451'' (auth_file (Issued ''0451'' 1300))))
       = (Inr (False, ''No active code.''), auth_file NoCode)"
proof -
  have strip_code: "strip ''0451'' = ''0451''"
    by (simp add: strip_def is_space_def)
  have gen: "generate 1000 451 = (''0451'', auth_file (Issued ''0451'' 1300))"
    by (simp add: generate_def fmt04_def dec_nat.simps digit_char_def save_state_def
        int_of_time_def EXPIRY_SEC_def Let_def auth_file.simps)
  note v = validate_outcomes [of 1200 "''0451''" "Issued ''0451'' 1300" 1201]
  have first: "validate 1200 ''0451'' (auth_file (Issued ''0451'' 1300))
      = (Inr (True, ''Code valid.''), auth_file NoCode)"
    using v strip_code by simp
  have second: "validate 1201 ''0451'' (snd (validate 1200 ''0451'' (auth_file (Issued ''0451'' 1300))))
      = (Inr (False, ''No active code.''), auth_file NoCode)"
    using v first by simp
  show ?thesis
    using gen first second by simp
qed

lemma validate_not_object:
  "truthy (load_state f) \<Longrightarrow> \<not> is_object (load_state f) \<Longrightarrow> validate now s f = (Inl AttributeError, f)"
  by (cases "load_state f") (simp_all add: validate_def is_object_def)

lemma validate_object:
  assumes "load_state f = JObj kv" and "kv \<noteq> []"
  shows "validate now s f =
     (case time_gt now (dict_get_default kv ''expires_at'' (JInt 0)) of
        Inl e \<Rightarrow> (Inl e, f)
      | Inr True \<Rightarrow> (Inr (False, ''Code expired.''), f)
      | Inr False \<Rightarrow>
          if JStr (strip s) = dict_get kv ''code''
          then (Inr (True, ''Code valid.''), save_state (JObj []))
          else (Inr (False, ''Code mismatch.''), f))"
  using assms by (simp add: validate_def)

text \<open>
  C9 (amended). With the state file missing, unreadable or unparsable, or holding a
  document that tests false (the empty object, \<open>null\<close>, \<open>false\<close>, 0, the empty string,
  the empty list), validate does not raise: it returns failure with "No active code."
  and leaves the file as it found it. It is not total over the contents of the file. A
  document that tests true and is not an object has no \<open>get\<close>: validate raises
  \<open>AttributeError\<close>. An object whose \<open>expires_at\<close> is present and is neither a number
  nor a boolean cannot be compared with the clock: validate raises \<open>TypeError\<close>. In a
  non-empty object whose \<open>expires_at\<close> is absent or a number, validate returns one of
  its three other outcomes. Whenever validate raises, the file is as it was.
\<close>

theorem validate_total_on_falsy_state:
  fixes now :: rat and s :: string and f :: json_file
  shows "(\<not> truthy (load_state f) \<longrightarrow> validate now s f = (Inr (False, ''No active code.''), f))
       \<and> (truthy (load_state f) \<and> \<not> is_object (load_state f)
            \<longrightarrow> validate now s f = (Inl AttributeError, f))
       \<and> (load_state f = JObj kv \<and> kv \<noteq> []
            \<and> time_gt now (dict_get_default kv ''expires_at'' (JInt 0)) = Inl e
            \<longrightarrow> e = TypeError \<and> validate now s f = (Inl e, f))
       \<and> (load_state f = JObj kv \<and> kv \<noteq> []
            \<and> time_gt now (dict_get_default kv ''expires_at'' (JInt 0)) = Inr b
            \<longrightarrow> fst (validate now s f) \<in>
                  {Inr (False, ''Code expired.''), Inr (False, ''Code mismatch.''), Inr (True, ''Code valid.'')})
       \<and> (fst (validate now s f) = Inl e' \<longrightarrow> snd (validate now s f) = f)"
proof -
  have falsy: "validate now s f = (Inr (False, ''No active code.''), f)" if "\<not> truthy (load_state f)"
    using that by (rule validate_no_state)
  have other: "validate now s f = (Inl AttributeError, f)"
    if "truthy (load_state f)" and "\<not> is_object (load_state f)"
    using that by (rule validate_not_object)
  have raising: "e = TypeError \<and> validate now s f = (Inl e, f)"
    if "load_state f = JObj kv" and "kv \<noteq> []"
      and "time_gt now (dict_get_default kv ''expires_at'' (JInt 0)) = Inl e"
  proof -
    from that(3) have "e = TypeError"
      by (simp add: time_gt_def split: json.splits)
    with that show ?thesis
      by (simp add: validate_object)
  qed
  have returning: "fst (validate now s f) \<in>
      {Inr (False, ''Code expired.''), Inr (False, ''Code mismatch.''), Inr (True, ''Code valid.'')}"
    if "load_state f = JObj kv" and "kv \<noteq> []"
      and "time_gt now (dict_get_default kv ''expires_at'' (JInt 0)) = Inr b"
    using that by (cases b) (simp_all add: validate_object)
  have kept: "snd (validate now s f) = f" if "fst (validate now s f) = Inl e'"
  proof (cases "truthy (load_state f)")
    case False
    with that show ?thesis by (simp add: validate_no_state)
  next
    case True
    show ?thesis
    proof (cases "load_state f")
      case (JObj kv')
      with True have "kv' \<noteq> []" by simp
      with JObj that show ?thesis
        by (simp add: validate_object split: sum.splits bool.splits if_splits)
    qed (use True in \<open>simp_all add: validate_not_object is_object_def\<close>)
  qed
  show ?thesis
    using falsy other raising returning kept by blast
qed

text \<open>
  The three contents the claim lists and three more that test false are refused with
  "No active code."; a stored code without an expiry is compared (the default expiry is 0,
  so it has expired).
\<close>

theorem validate_total_on_falsy_state_witness:
  "validate 1200 ''0451'' NoFile = (Inr (False, ''No active code.''), NoFile)
   \<and> validate 1200 ''0451'' Garbled = (Inr (False, ''No active code.''), Garbled)
   \<and> validate 1200 ''0451'' (Content (JObj [])) = (Inr (False, ''No active code.''), Content (JObj []))
   \<and> validate 1200 ''0451'' (Content JNull) = (Inr (False, ''No active code.''), Content JNull)
   \<and> validate 1200 ''0451'' (Content (JArr [])) = (Inr (False, ''No active code.''), Content (JArr []))
   \<and> validate 1200 ''0451'' (Content (JInt 0)) = (Inr (False, ''No active code.''), Content (JInt 0))
   \<and> fst (validate 1200 ''0451'' (Content (JObj [(''code'', JStr ''0451'')]))) = Inr (False, ''Code expired.'')"
proof -
  have f: "\<not> truthy (load_state NoFile)" "\<not> truthy (load_state Garbled)"
    "\<not> truthy (load_state (Content (JObj [])))" "\<not> truthy (load_state (Content JNull))"
    "\<not> truthy (load_state (Content (JArr [])))" "\<not> truthy (load_state (Content (JInt 0)))"
    by (simp_all add: load_state_def)
  note t = validate_total_on_falsy_state [where now = 1200 and s = "''0451''"]
  have a: "validate 1200 ''0451'' NoFile = (Inr (False, ''No active code.''), NoFile)"
    using t [where f = NoFile] f(1) by blast
  have b: "validate 1200 ''0451'' Garbled = (Inr (False, ''No active code.''), Garbled)"
    using t [where f = Garbled] f(2) by blast
  have c: "validate 1200 ''0451'' (Content (JObj [])) = (Inr (False, ''No active code.''), Content (JObj []))"
    using t [where f = "Content (JObj [])"] f(3) by blast
  have d: "validate 1200 ''0451'' (Content JNull) = (Inr (False, ''No active code.''), Content JNull)"
    using t [where f = "Content JNull"] f(4) by blast
  have e: "validate 1200 ''0451'' (Content (JArr [])) = (Inr (False, ''No active code.''), Content (JArr []))"
    using t [where f = "Content (JArr [])"] f(5) by blast
  have g: "validate 1200 ''0451'' (Content (JInt 0)) = (Inr (False, ''No active code.''), Content (JInt 0))"
    using t [where f = "Content (JInt 0)"] f(6) by blast
  have h: "fst (validate 1200 ''0451'' (Content (JObj [(''code'', JStr ''0451'')]))) = Inr (False, ''Code expired.'')"
    by code_simp
  show ?thesis
    using a b c d e g h by blast
qed

text \<open>
  The claim as stated fails on a state file that holds the list \<open>[1]\<close>, and on one that
  holds a code with the expiry \<open>null\<close>: validate raises.
\<close>

theorem validate_raises_on_malformed_state_counterexample:
  "validate 1200 ''0451'' (Content (JArr [JInt 1])) = (Inl AttributeError, Content (JArr [JInt 1]))
   \<and> validate 1200 ''0451'' (Content (JObj [(''code'', JStr ''0451''), (''expires_at'', JNull)]))
       = (Inl TypeError, Content (JObj [(''code'', JStr ''0451''), (''expires_at'', JNull)]))"
  by (simp add: validate_def load_state_def time_gt_def dict_get_default_def)
section \<open>Properties of the event log\<close>

lemma fold_max_ge: "(a::int) \<le> fold max xs a"
  by (induction xs arbitrary: a) (auto intro: order_trans [OF max.cobounded2])

lemma fold_max_mem: "(x::int) \<in> set xs \<Longrightarrow> x \<le> fold max xs a"
proof (induction xs arbitrary: a)
  case Nil
  then show ?case by simp
next
  case (Cons y ys)
  show ?case
  proof (cases "x = y")
    case True
    have "max y a \<le> fold max ys (max y a)" by (rule fold_max_ge)
    with True show ?thesis by simp
  next
    case False
    with Cons show ?thesis by simp
  qed
qed

lemma next_id_above: "r \<in> set rs \<Longrightarrow> col_id r < next_id rs"
  using fold_max_mem [of "col_id r" "map col_id rs" 0] by (simp add: next_id_def)

lemma log_ok_publish: "log_ok (signal_events db) \<Longrightarrow> log_ok (signal_events (snd (publish_event now db ev)))"
  by (auto simp: publish_event_def log_ok_def sorted_wrt_append event_stored_def new_row_def
      dest: next_id_above)

lemma log_ok_publish_all: "log_ok (signal_events db) \<Longrightarrow> log_ok (signal_events (publish_all db evs))"
  by (induction db evs rule: publish_all.induct) (auto simp: log_ok_publish)

lemma log_ok_reachable: "log_ok (signal_events (publish_all (init_db\<lparr>consumer_offsets := offs\<rparr>) evs))"
  by (rule log_ok_publish_all) (simp add: init_db_def log_ok_def)

lemma fetch_sorted_log:
  assumes "log_ok (signal_events db)" and "sql_int a" and "sql_int l"
  shows "fetch_events db a l = Inr (sql_limit l (filter (\<lambda>r. a < col_id r) (signal_events db)))"
proof -
  have "sorted_wrt (<) (map col_id (filter (\<lambda>r. a < col_id r) (signal_events db)))"
    using assms(1) by (simp add: log_ok_def sorted_wrt_map sorted_wrt_filter)
  then have "sorted (map col_id (filter (\<lambda>r. a < col_id r) (signal_events db)))"
    by (rule strict_sorted_imp_sorted)
  then show ?thesis
    using assms(2,3) by (simp add: fetch_events_def sort_key_id_if_sorted)
qed

lemma fetch_events_overflow:
  "\<not> sql_int a \<or> \<not> sql_int l \<Longrightarrow> fetch_events db a l = Inl OverflowError"
  by (auto simp: fetch_events_def)






text \<open>
  C7 (amended). For every log state, and every after_rowid and limit of 64 bits: with a
  limit that is not negative, fetch_events returns the rows with id above after_rowid in
  insertion order, which is strictly ascending id order, cut after the first limit rows,
  so at most limit rows; fetch_events reads the log and changes nothing, so the same call
  on the same log returns the same rows. With a negative limit the query has no bound and
  returns all rows with id above after_rowid. With an after_rowid or a limit outside 64
  bits fetch_events raises \<open>OverflowError\<close> and returns no rows.
\<close>

theorem fetch_events_ordered_bounded:
  fixes evs :: "(int \<times> event) list" and a l a' l' :: int and n :: nat
    and offs :: "string \<Rightarrow> (int \<times> int) option"
  assumes "0 \<le> l" and "sql_int l" and "sql_int a"
  defines "db \<equiv> publish_all (init_db\<lparr>consumer_offsets := offs\<rparr>) evs"
  defines "rows \<equiv> take (nat l) (filter (\<lambda>r. a < col_id r) (signal_events db))"
  shows "fetch_events db a l = Inr rows
       \<and> sorted_wrt (<) (map col_id rows)
       \<and> list_all (\<lambda>r. a < col_id r) rows
       \<and> length rows \<le> nat l
       \<and> (sql_int (- 1 - int n)
            \<longrightarrow> fetch_events db a (- 1 - int n) = Inr (filter (\<lambda>r. a < col_id r) (signal_events db)))
       \<and> (\<not> sql_int a' \<or> \<not> sql_int l' \<longrightarrow> fetch_events db a' l' = Inl OverflowError)"
proof -
  let ?m = "filter (\<lambda>r. a < col_id r) (signal_events db)"
  have ok: "log_ok (signal_events db)"
    unfolding db_def by (rule log_ok_reachable)
  have eq: "fetch_events db a l = Inr rows"
    using assms(1) by (simp add: fetch_sorted_log [OF ok assms(3) assms(2)] sql_limit_def rows_def)
  have "sorted_wrt (<) (map col_id ?m)"
    using ok by (simp add: log_ok_def sorted_wrt_map sorted_wrt_filter)
  then have asc: "sorted_wrt (<) (map col_id rows)"
    by (simp add: sorted_wrt_map rows_def)
  have above: "list_all (\<lambda>r. a < col_id r) rows"
    by (auto simp: list_all_iff rows_def dest: in_set_takeD)
  have bound: "length rows \<le> nat l"
    by (simp add: rows_def)
  have unbounded: "fetch_events db a (- 1 - int n) = Inr ?m" if "sql_int (- 1 - int n)"
    by (simp add: fetch_sorted_log [OF ok assms(3) that] sql_limit_def)
  have overflow: "fetch_events db a' l' = Inl OverflowError" if "\<not> sql_int a' \<or> \<not> sql_int l'"
    using that by (rule fetch_events_overflow)
  show ?thesis
    using eq asc above bound unbounded overflow by blast
qed

text \<open>
  Two events are stored. With limit 1 the first is returned, with limit -1 both are, and
  with limit \<open>2\<^sup>6\<^sup>3\<close> the call raises.
\<close>

theorem fetch_events_ordered_bounded_witness:
  "(0::int) \<le> 1 \<and> sql_int 1 \<and> sql_int 0 \<and> sql_int (- 1 - int 0)
   \<and> map_sum id (map col_event_id) (fetch_events (publish_all init_db
        [(1000, example_event ''e1'' (JArr [])), (1001, example_event ''e2'' (JArr []))]) 0 1) = Inr [''e1'']
   \<and> map_sum id (map col_id) (fetch_events (publish_all init_db
        [(1000, example_event ''e1'' (JArr [])), (1001, example_event ''e2'' (JArr []))]) 0 (- 1)) = Inr [1, 2]
   \<and> \<not> sql_int (2 ^ 63)
   \<and> fetch_events (publish_all init_db
        [(1000, example_event ''e1'' (JArr [])), (1001, example_event ''e2'' (JArr []))]) 0 (2 ^ 63)
       = Inl OverflowError"
proof -
  let ?evs = "[(1000, example_event ''e1'' (JArr [])), (1001, example_event ''e2'' (JArr []))]"
  let ?db = "publish_all init_db ?evs"
  have i: "init_db\<lparr>consumer_offsets := (\<lambda>_. None)\<rparr> = init_db"
    by (simp add: init_db_def)
  have h: "(0::int) \<le> 1" "sql_int 1" "sql_int 0" "sql_int (- 1 - int 0)" "\<not> sql_int (2 ^ 63)"
    by (simp_all add: sql_int_def)
  note t = fetch_events_ordered_bounded [OF h(1) h(2) h(3), of "\<lambda>_. None" ?evs 0 0 "2 ^ 63", unfolded i]
  have filtered: "map col_event_id (take (nat 1) (filter (\<lambda>r. 0 < col_id r) (signal_events ?db))) = [''e1'']"
    by code_simp
  have every: "map col_id (filter (\<lambda>r. 0 < col_id r) (signal_events ?db)) = [1, 2]"
    by code_simp
  from t have "fetch_events ?db 0 1 = Inr (take (nat 1) (filter (\<lambda>r. 0 < col_id r) (signal_events ?db)))"
    by blast
  with filtered have first: "map_sum id (map col_event_id) (fetch_events ?db 0 1) = Inr [''e1'']"
    by simp
  from t h(4) have "fetch_events ?db 0 (- 1 - int 0) = Inr (filter (\<lambda>r. 0 < col_id r) (signal_events ?db))"
    by blast
  with every have all: "map_sum id (map col_id) (fetch_events ?db 0 (- 1)) = Inr [1, 2]"
    by simp
  from t h(5) have over: "fetch_events ?db 0 (2 ^ 63) = Inl OverflowError"
    by blast
  show ?thesis
    using h first all over by blast
qed

text \<open>
  The claim as stated fails at a negative limit: with one stored event,
  \<open>fetch_events db 0 (-1)\<close> returns that event, one row, which is more than the limit.
  It also fails at the limit \<open>2\<^sup>6\<^sup>3\<close>, where the call raises.
\<close>

theorem fetch_events_negative_limit_counterexample:
  "map_sum id (map col_event_id)
     (fetch_events (publish_all init_db [(1000, example_event ''e1'' (JArr []))]) 0 (- 1)) = Inr [''e1'']
   \<and> \<not> int (length [''e1'']) \<le> - 1
   \<and> fetch_events (publish_all init_db [(1000, example_event ''e1'' (JArr []))]) 0 (2 ^ 63)
       = Inl OverflowError"
  by code_simp
section \<open>Properties of the collector\<close>

lemma dec_nat_nonempty: "dec_nat n \<noteq> []"
  by (subst dec_nat.simps) simp

lemma dec_int_nonempty: "dec_int i \<noteq> []"
  by (simp add: dec_int_def dec_nat_nonempty)

lemma py_str_truthy_nonempty: "truthy v \<Longrightarrow> py_str v \<noteq> []"
  by (cases v) (simp_all add: py_str_def dec_int_nonempty)

lemma seed_bars_only:
  assumes "join ''|'' [a, t, c, d] = ''|||''"
  shows "t = []"
proof -
  have "length (join ''|'' [a, t, c, d]) = length a + length t + length c + length d + 3"
    by simp
  with assms have "length a + length t + length c + length d + 3 = 3"
    by simp
  then show ?thesis
    by simp
qed

lemma stable_seed_has_timestamp:
  assumes "stable_seed now raw_obj = Inr seed"
  shows "seed \<noteq> ''|||''"
proof
  assume bars: "seed = ''|||''"
  let ?ts = "py_str (py_or (py_or (dict_get raw_obj ''received_at'') (dict_get raw_obj ''timestamp'')) (JInt now))"
  have ts: "?ts \<noteq> []"
  proof (cases "truthy (py_or (dict_get raw_obj ''received_at'') (dict_get raw_obj ''timestamp''))")
    case True
    then show ?thesis by (simp add: py_or_def py_str_truthy_nonempty)
  next
    case False
    then show ?thesis by (simp add: py_or_def py_str_def dec_int_nonempty)
  qed
  from assms bars have "?ts = []"
    by (auto simp: stable_seed_def Let_def simp del: join.simps split: sum.splits dest: seed_bars_only)
  with ts show False by simp
qed

lemma stable_event_id_never_falls_back:
  "stable_event_id H D now raw_obj = map_sum id H (stable_seed now raw_obj)"
  by (cases "stable_seed now raw_obj") (simp_all add: stable_event_id_def stable_seed_has_timestamp)

text \<open>
  C3. The event_id is meant to be a function of the raw object, with the digest of the
  whole object as the fallback when the four components are empty. Evaluated on a raw
  object without a timestamp, \<open>stable_event_id\<close> puts the clock reading into the
  seed: the same object gets the seed "|1000||hi" at t = 1000 and "|1001||hi" at
  t = 1001, and the empty object gets "|1000||" and "|1001||", not the digest of the
  object.
\<close>

theorem stable_event_id_clock_dependent:
  "stable_event_id H D 1000 [(''text'', JStr ''hi'')] = Inr (H ''|1000||hi'')
   \<and> stable_event_id H D 1001 [(''text'', JStr ''hi'')] = Inr (H ''|1001||hi'')
   \<and> stable_event_id H D 1000 [] = Inr (H ''|1000||'')
   \<and> stable_event_id H D 1001 [] = Inr (H ''|1001||'')"
proof -
  have d0: "dec_int 1000 = ''1000''" and d1: "dec_int 1001 = ''1001''"
    by (simp_all add: dec_int_def dec_nat.simps digit_char_def)
  have "stable_seed 1000 [(''text'', JStr ''hi'')] = Inr ''|1000||hi''"
    and "stable_seed 1001 [(''text'', JStr ''hi'')] = Inr ''|1001||hi''"
    and "stable_seed 1000 [] = Inr ''|1000||''"
    and "stable_seed 1001 [] = Inr ''|1001||''"
    by (simp_all add: stable_seed_def dict_get_def py_or_def py_get_def py_str_def d0 d1)
  then show ?thesis
    by (simp add: stable_event_id_def)
qed












section \<open>The consumer and the loop script\<close>

subsection \<open>The handlers\<close>

lemma conn_send_message [simp]: "conn (send_message ch n st) = conn st"
  by (simp add: send_message_def)

lemma conn_log_auth_failure [simp]: "conn (log_auth_failure env w c m st) = conn st"
  by (simp add: log_auth_failure_def)

lemma conn_store_pending [simp]: "conn (store_pending_transcript env t f m st) = conn st"
  by (simp add: store_pending_transcript_def)

lemma conn_generate_auth_code [simp]: "conn (snd (generate_auth_code env st)) = conn st"
  by (simp add: generate_auth_code_def Let_def split: prod.splits)

lemma conn_validate_code [simp]: "conn (snd (validate_code env c st)) = conn st"
  by (simp add: validate_code_def split: prod.splits sum.splits)

lemma str_or_falsy_truthy: "str_or_falsy v \<Longrightarrow> truthy v \<Longrightarrow> \<exists>s. v = JStr s"
  by (cases v) (simp_all add: str_or_falsy_def)

lemma attachment_suffix_ok:
  assumes "str_or_falsy fn" and "str_or_falsy p"
  shows "\<exists>s. attachment_suffix (py_or fn (JStr [])) p = Inr s"
proof (cases "truthy fn")
  case True
  with assms(1) obtain f where "fn = JStr f" by (auto dest: str_or_falsy_truthy)
  with True show ?thesis by (simp add: attachment_suffix_def py_or_def)
next
  case False
  note nofn = this
  show ?thesis
  proof (cases "truthy p")
    case True
    with assms(2) obtain q where "p = JStr q" by (auto dest: str_or_falsy_truthy)
    with nofn True show ?thesis by (simp add: attachment_suffix_def py_or_def)
  next
    case False
    with nofn show ?thesis by (simp add: attachment_suffix_def py_or_def)
  qed
qed

lemma voice_attachments_conn: "conn (snd (voice_attachments env r xs st)) = conn st"
proof (induction xs)
  case Nil
  show ?case by simp
next
  case (Cons a xs)
  show ?case
  proof (cases a)
    case (JObj kv)
    obtain g st1 where g: "generate_auth_code env st = (g, st1)"
      by (cases "generate_auth_code env st")
    then have "conn st1 = conn st"
      using conn_generate_auth_code [of env st] by simp
    with JObj Cons g show ?thesis
      by (simp add: Let_def split: sum.splits json.splits option.splits bool.splits)
  qed simp_all
qed

lemma voice_attachments_no_raise:
  "list_all attachment_ok xs \<Longrightarrow> list_all (probe_quiet env) xs
   \<Longrightarrow> fst (voice_attachments env r xs st) = Inr ()"
proof (induction xs)
  case Nil
  show ?case by simp
next
  case (Cons a xs)
  from Cons.prems obtain kv where a: "a = JObj kv"
    and fn: "str_or_falsy (dict_get kv ''filename'')" and p: "str_or_falsy (dict_get kv ''path'')"
    by (cases a) (simp_all add: attachment_ok_def)
  from attachment_suffix_ok [OF fn p] obtain s where
    s: "attachment_suffix (py_or (dict_get kv ''filename'') (JStr [])) (dict_get kv ''path'') = Inr s"
    by blast
  from Cons have ih: "fst (voice_attachments env r xs st) = Inr ()"
    by simp
  show ?case
  proof (cases "truthy (dict_get kv ''path'')")
    case True
    with p obtain q where q: "dict_get kv ''path'' = JStr q"
      by (auto dest: str_or_falsy_truthy)
    with Cons.prems(2) a obtain b where b: "path_exists env q = Inr b"
      by (cases "path_exists env q") (simp_all add: probe_quiet_def)
    with q a s ih show ?thesis
      by (cases b) (simp_all add: Let_def split: option.splits prod.splits)
  next
    case False
    with a s ih show ?thesis
      by (simp add: Let_def)
  qed
qed

lemma handle_voice_event_pending_noop:
  "pending_exists st \<Longrightarrow> handle_voice_event env r st = (Inr (), st)"
  by (simp add: handle_voice_event_def Let_def)

lemma handle_voice_event_conn: "conn (snd (handle_voice_event env r st)) = conn st"
  by (simp add: handle_voice_event_def Let_def voice_attachments_conn split: json.splits)

lemma handle_voice_event_no_raise:
  assumes "well_shaped_row r" and "probes_quiet env r"
  shows "fst (handle_voice_event env r st) = Inr ()"
proof -
  from assms(1) obtain xs where xs: "attachments_json r = JArr xs" and "list_all attachment_ok xs"
    by (cases "attachments_json r") (simp_all add: well_shaped_row_def)
  moreover from assms(2) xs have "list_all (probe_quiet env) xs"
    by (simp add: probes_quiet_def)
  ultimately show ?thesis
    by (simp add: handle_voice_event_def Let_def voice_attachments_no_raise)
qed

lemma handle_code_event_conn: "conn (snd (handle_code_event env r st)) = conn st"
proof (cases "pending_exists st")
  case False
  then show ?thesis by (simp add: handle_code_event_def)
next
  case True
  note pe = this
  show ?thesis
  proof (cases "message_json r")
    case (JObj msg)
    show ?thesis
    proof (cases "code_match (py_str (py_or (dict_get msg ''text'') (JStr [])))")
      case None
      with pe JObj show ?thesis by (simp add: handle_code_event_def)
    next
      case (Some c)
      obtain ok why st1 where v: "validate_code env c st = ((ok, why), st1)"
        by (cases "validate_code env c st") auto
      then have c1: "conn st1 = conn st"
        using conn_validate_code [of env c st] by simp
      show ?thesis
      proof (cases ok)
        case True
        with pe JObj Some v c1 show ?thesis
          by (simp add: handle_code_event_def Let_def split: sum.splits)
      next
        case False
        with pe JObj Some v c1 show ?thesis
          by (simp add: handle_code_event_def)
      qed
    qed
  qed (simp_all add: handle_code_event_def pe)
qed

lemma handle_code_event_no_raise:
  "is_object (message_json r) \<Longrightarrow> \<not> auth_script_runs env \<Longrightarrow> fst (handle_code_event env r st) = Inr ()"
  by (cases "message_json r")
     (simp_all add: is_object_def handle_code_event_def validate_code_def split: option.splits)

subsection \<open>The loop over a batch\<close>

lemma get_offset_set_offset [simp]: "get_offset (set_offset now d c i) c = i"
  by (simp add: get_offset_def set_offset_def)

lemma advance_offset_offset [simp]: "get_offset (conn (advance_offset env c r st)) c = col_id r"
  by (simp add: advance_offset_def)

lemma advance_offset_pending [simp]: "pending (advance_offset env c r st) = pending st"
  by (simp add: advance_offset_def)

lemma process_row_cases:
  obtains (raised) e st1 where "process_row env c r st = (Inl e, st1)" "conn st1 = conn st"
  | (handled) st1 where "process_row env c r st = (Inr (), st1)" "get_offset (conn st1) c = col_id r"
proof (cases "is_from_target_sender r")
  case (Inl e)
  then have "process_row env c r st = (Inl e, st)" by (simp add: process_row_def)
  then show ?thesis using raised by simp
next
  case (Inr b)
  show ?thesis
  proof (cases b)
    case False
    with Inr have "process_row env c r st = (Inr (), advance_offset env c r st)"
      by (simp add: process_row_def)
    then show ?thesis using handled by simp
  next
    case True
    obtain v st1 where hv: "handle_voice_event env r st = (v, st1)"
      by (cases "handle_voice_event env r st")
    then have c1: "conn st1 = conn st"
      using handle_voice_event_conn [of env r st] by simp
    show ?thesis
    proof (cases v)
      case (Inl e)
      with Inr True hv have "process_row env c r st = (Inl e, st1)"
        by (simp add: process_row_def)
      then show ?thesis using raised c1 by simp
    next
      case (Inr u)
      note v = this
      obtain w st2 where hc: "handle_code_event env r st1 = (w, st2)"
        by (cases "handle_code_event env r st1")
      then have c2: "conn st2 = conn st1"
        using handle_code_event_conn [of env r st1] by simp
      show ?thesis
      proof (cases w)
        case (Inl e)
        with \<open>is_from_target_sender r = Inr b\<close> True hv v hc
        have "process_row env c r st = (Inl e, st2)"
          by (simp add: process_row_def)
        then show ?thesis using raised c1 c2 by simp
      next
        case (Inr u')
        with \<open>is_from_target_sender r = Inr b\<close> True hv v hc
        have "process_row env c r st = (Inr (), advance_offset env c r st2)"
          by (simp add: process_row_def)
        then show ?thesis using handled by simp
      qed
    qed
  qed
qed

lemma process_row_no_raise:
  assumes "well_shaped_row r" and "probes_quiet env r" and "\<not> auth_script_runs env"
  shows "fst (process_row env c r st) = Inr ()"
proof -
  from assms(1) obtain so where so: "sender_json r = JObj so"
    by (cases "sender_json r") (simp_all add: well_shaped_row_def is_object_def)
  from assms(1) have msg: "is_object (message_json r)"
    by (simp add: well_shaped_row_def)
  obtain st1 where hv: "handle_voice_event env r st = (Inr (), st1)"
    using handle_voice_event_no_raise [OF assms(1,2), of st]
    by (cases "handle_voice_event env r st") auto
  obtain st2 where hc: "handle_code_event env r st1 = (Inr (), st2)"
    using handle_code_event_no_raise [OF msg assms(3), of st1]
    by (cases "handle_code_event env r st1") auto
  show ?thesis
    by (simp add: process_row_def is_from_target_sender_def so hv hc split: bool.splits)
qed


lemma process_rows_completed:
  "fst (process_rows env c rs st) = Inr () \<Longrightarrow> rs \<noteq> []
   \<Longrightarrow> get_offset (conn (snd (process_rows env c rs st))) c = col_id (last rs)"
proof (induction rs arbitrary: st)
  case Nil
  then show ?case by simp
next
  case (Cons r rs)
  show ?case
  proof (cases rule: process_row_cases [of env c r st])
    case (raised e st1)
    with Cons.prems show ?thesis by simp
  next
    case (handled st1)
    show ?thesis
    proof (cases "rs = []")
      case True
      with handled show ?thesis by simp
    next
      case False
      with handled Cons.prems Cons.IH [of st1] show ?thesis by simp
    qed
  qed
qed

lemma process_rows_no_raise:
  "list_all well_shaped_row rs \<Longrightarrow> list_all (probes_quiet env) rs \<Longrightarrow> \<not> auth_script_runs env
   \<Longrightarrow> fst (process_rows env c rs st) = Inr ()"
proof (induction rs arbitrary: st)
  case Nil
  show ?case by simp
next
  case (Cons r rs)
  then have "fst (process_row env c r st) = Inr ()"
    by (simp add: process_row_no_raise)
  then obtain st1 where "process_row env c r st = (Inr (), st1)"
    by (cases "process_row env c r st") auto
  with Cons show ?case by simp
qed


subsection \<open>A validated code without a transcript\<close>

lemma validate_success_clears:
  "validate now s f = (Inr (True, m), f') \<Longrightarrow> f' = Content (JObj [])"
  by (auto simp: validate_def Let_def save_state_def split: if_splits json.splits sum.splits bool.splits)

lemma validate_cleared: "validate now s (Content (JObj [])) = (Inr (False, ''No active code.''), Content (JObj []))"
  by (simp add: validate_def load_state_def)

lemma validate_code_success_clears:
  assumes "validate_code env c st = ((True, why), st1)"
  shows "st1 = st\<lparr>auth_state := Content (JObj [])\<rparr>"
proof -
  from assms have runs: "auth_script_runs env"
    by (auto simp: validate_code_def split: if_splits)
  obtain res f where v: "validate (time_now env) c (auth_state st) = (res, f)"
    by (cases "validate (time_now env) c (auth_state st)")
  with assms runs obtain m where "res = Inr (True, m)" and st1: "st1 = st\<lparr>auth_state := f\<rparr>"
    by (cases res) (auto simp: validate_code_def)
  with v have "f = Content (JObj [])"
    by (auto dest: validate_success_clears)
  with st1 show ?thesis by simp
qed

lemma validate_code_cleared:
  "auth_state st = Content (JObj []) \<Longrightarrow> fst (fst (validate_code env c st)) = False"
  by (simp add: validate_code_def validate_cleared)

text \<open>
  C10. A pending request exists, the message carries a four-digit code, the validation of
  that code succeeds, and the transcript read back from the pending file is empty (the
  file is unreadable, is no object, has no transcript, or has one of white space only).
  Then \<open>handle_code_event\<close> returns normally, has logged
  \<open>pending_transcript_missing_or_invalid\<close> and sent the notice on Signal, and has left
  the pending file as it was; the successful validation has cleared the auth state, so
  no code, under any clock reading, validates against the state that remains.
\<close>

theorem code_accepted_without_transcript:
  fixes env env' :: sigpro_env and st :: sigpro_state and r :: row and c c' :: string
  assumes "pending_exists st"
    and "message_json r = JObj msg"
    and "code_match (py_str (py_or (dict_get msg ''text'') (JStr []))) = Some c"
    and "fst (fst (validate_code env c st)) = True"
    and "pending_transcript (pending st) = []"
  defines "st' \<equiv> snd (handle_code_event env r st)"
  shows "fst (handle_code_event env r st) = Inr ()
       \<and> pending st' = pending st \<and> pending_exists st'
       \<and> auth_state st' = Content (JObj [])
       \<and> outbox st' = outbox st @ [(''signal'', NoTranscriptNotice)]
       \<and> map entry_reason (auth_failures st')
           = map entry_reason (auth_failures st) @ [''pending_transcript_missing_or_invalid'']
       \<and> fst (fst (validate_code env' c' st')) = False"
proof -
  from assms(4) obtain why st1 where v: "validate_code env c st = ((True, why), st1)"
    by (cases "validate_code env c st") auto
  then have st1: "st1 = st\<lparr>auth_state := Content (JObj [])\<rparr>"
    by (rule validate_code_success_clears)
  let ?out = "send_message ''signal'' NoTranscriptNotice
      (log_auth_failure env ''pending_transcript_missing_or_invalid'' (Some c) (col_source_message_id r) st1)"
  have h: "handle_code_event env r st = (Inr (), ?out)"
    using assms(1,2,3,5) v st1 by (simp add: handle_code_event_def Let_def)
  then have s: "st' = ?out"
    by (simp add: st'_def)
  have a: "auth_state st' = Content (JObj [])"
    by (simp add: s st1 send_message_def log_auth_failure_def)
  have p: "pending st' = pending st"
    by (simp add: s st1 send_message_def log_auth_failure_def)
  have o: "outbox st' = outbox st @ [(''signal'', NoTranscriptNotice)]"
    by (simp add: s st1 send_message_def log_auth_failure_def)
  have l: "map entry_reason (auth_failures st')
      = map entry_reason (auth_failures st) @ [''pending_transcript_missing_or_invalid'']"
    by (simp add: s st1 send_message_def log_auth_failure_def)
  from a have n: "fst (fst (validate_code env' c' st')) = False"
    by (rule validate_code_cleared)
  from p assms(1) have e: "pending_exists st'"
    by (simp add: pending_exists_def)
  show ?thesis
    using h p e a o l n by simp
qed

text \<open>
  The pending file holds a transcript of two blanks and the user enters the issued code
  0451 before it expires.
\<close>

theorem code_accepted_without_transcript_witness:
  "pending_exists blank_pending
   \<and> message_json (example_row 5 TARGET_USER ''0451'' (JArr [])) = JObj [(''text'', JStr ''0451''), (''is_edit'', JBool False), (''is_delete'', JBool False)]
   \<and> code_match ''0451'' = Some ''0451''
   \<and> fst (fst (validate_code example_sigpro_env ''0451'' blank_pending)) = True
   \<and> pending_transcript (pending blank_pending) = []
   \<and> pending (snd (handle_code_event example_sigpro_env (example_row 5 TARGET_USER ''0451'' (JArr [])) blank_pending))
       = pending blank_pending
   \<and> auth_state (snd (handle_code_event example_sigpro_env (example_row 5 TARGET_USER ''0451'' (JArr [])) blank_pending))
       = Content (JObj [])
   \<and> fst (fst (validate_code example_sigpro_env ''0451''
        (snd (handle_code_event example_sigpro_env (example_row 5 TARGET_USER ''0451'' (JArr [])) blank_pending))))
       = False"
proof -
  let ?r = "example_row 5 TARGET_USER ''0451'' (JArr [])"
  let ?msg = "[(''text'', JStr ''0451''), (''is_edit'', JBool False), (''is_delete'', JBool False)]"
  have h1: "pending_exists blank_pending" by code_simp
  have h2: "message_json ?r = JObj ?msg" by code_simp
  have h3: "code_match (py_str (py_or (dict_get ?msg ''text'') (JStr []))) = Some ''0451''" by code_simp
  have h3': "code_match ''0451'' = Some ''0451''" by code_simp
  have h4: "fst (fst (validate_code example_sigpro_env ''0451'' blank_pending)) = True" by code_simp
  have h5: "pending_transcript (pending blank_pending) = []" by code_simp
  note t = code_accepted_without_transcript [OF h1 h2 h3 h4 h5, of example_sigpro_env "''0451''"]
  show ?thesis
    using h1 h2 h3' h4 h5 t by blast
qed

subsection \<open>A run of the consumer\<close>



lemma voice_attachments_silent:
  "\<forall>p. transcriber env p = None \<Longrightarrow> snd (voice_attachments env r xs st) = st"
proof (induction xs)
  case Nil
  show ?case by simp
next
  case (Cons a xs)
  then have ih: "snd (voice_attachments env r xs st) = st"
    by simp
  from Cons.prems have tr: "transcribe env p = None" for p
    by (simp add: transcribe_def)
  show ?case
    by (cases a) (simp_all add: Let_def ih tr split: sum.splits json.splits bool.splits)
qed

lemma handle_voice_event_silent:
  "\<forall>p. transcriber env p = None \<Longrightarrow> snd (handle_voice_event env r st) = st"
  by (simp add: handle_voice_event_def Let_def voice_attachments_silent split: json.splits)

lemma handle_code_event_refused:
  "\<not> auth_script_runs env \<Longrightarrow> pending (snd (handle_code_event env r st)) = pending st"
  by (simp add: handle_code_event_def validate_code_def send_message_def log_auth_failure_def
      split: json.splits option.splits)

lemma process_row_keeps_pending:
  assumes "\<not> auth_script_runs env" and "\<forall>p. transcriber env p = None"
  shows "pending (snd (process_row env c r st)) = pending st"
proof -
  have hv: "handle_voice_event env r st = (fst (handle_voice_event env r st), st)"
    using handle_voice_event_silent [OF assms(2), of r st]
    by (cases "handle_voice_event env r st") simp
  have hc: "pending (snd (handle_code_event env r st)) = pending st"
    using assms(1) by (rule handle_code_event_refused)
  show ?thesis
  proof (cases "is_from_target_sender r")
    case (Inl e)
    then show ?thesis by (simp add: process_row_def)
  next
    case (Inr b)
    show ?thesis
    proof (cases b)
      case False
      with Inr show ?thesis by (simp add: process_row_def)
    next
      case True
      show ?thesis
      proof (cases "fst (handle_voice_event env r st)")
        case (Inl e)
        with hv have "handle_voice_event env r st = (Inl e, st)" by simp
        with Inr True show ?thesis by (simp add: process_row_def)
      next
        case (Inr u)
        with hv have v: "handle_voice_event env r st = (Inr u, st)" by simp
        obtain w st2 where c: "handle_code_event env r st = (w, st2)"
          by (cases "handle_code_event env r st")
        with hc have "pending st2 = pending st" by simp
        with \<open>is_from_target_sender r = Inr b\<close> True v c show ?thesis
          by (cases w) (simp_all add: process_row_def)
      qed
    qed
  qed
qed

lemma process_rows_keep_pending:
  assumes "\<not> auth_script_runs env" and "\<forall>p. transcriber env p = None"
  shows "pending (snd (process_rows env c rs st)) = pending st"
proof (induction rs arbitrary: st)
  case Nil
  show ?case by simp
next
  case (Cons r rs)
  obtain w st1 where r: "process_row env c r st = (w, st1)"
    by (cases "process_row env c r st")
  with process_row_keeps_pending [OF assms, of c r st] have "pending st1 = pending st"
    by simp
  with r Cons.IH [of st1] show ?case
    by (cases w) simp_all
qed

text \<open>
  C5 (amended). The loop of the consumer \<open>main\<close> has no exception handler. A
  collaborator that fails is an outcome by return value: with a transcriber that leaves
  nothing and an auth script that does not run, on rows whose sender and message are
  objects and whose attachments are a list of objects with textual names that the file
  system accepts, no handler raises, every row of the batch is handled, the offset ends
  at the last one, and the pending file is as it was. Whenever a row is handled without
  an exception, the offset is at that row and the loop goes on with the next one. An
  exception raised while a row is handled ends the run at that row: the rows after it
  are not handled and the database is as it was before that row.
\<close>

theorem consumer_loop_continues_unless_raised:
  fixes env :: sigpro_env and c :: string and st :: sigpro_state and rs rest :: "row list"
    and r :: row and e :: error
  shows "(list_all well_shaped_row rs \<and> list_all (probes_quiet env) rs
            \<and> \<not> auth_script_runs env \<and> (\<forall>p. transcriber env p = None)
          \<longrightarrow> fst (process_rows env c rs st) = Inr ()
              \<and> (rs \<noteq> [] \<longrightarrow> get_offset (conn (snd (process_rows env c rs st))) c = col_id (last rs))
              \<and> pending (snd (process_rows env c rs st)) = pending st)
       \<and> (fst (process_row env c r st) = Inr ()
            \<longrightarrow> process_rows env c (r # rest) st = process_rows env c rest (snd (process_row env c r st))
                \<and> get_offset (conn (snd (process_row env c r st))) c = col_id r)
       \<and> (fst (process_row env c r st) = Inl e
            \<longrightarrow> process_rows env c (r # rest) st = (Inl e, snd (process_row env c r st))
                \<and> conn (snd (process_row env c r st)) = conn st)"
proof -
  have failing: "fst (process_rows env c rs st) = Inr ()
      \<and> (rs \<noteq> [] \<longrightarrow> get_offset (conn (snd (process_rows env c rs st))) c = col_id (last rs))
      \<and> pending (snd (process_rows env c rs st)) = pending st"
    if "list_all well_shaped_row rs" and "list_all (probes_quiet env) rs"
      and "\<not> auth_script_runs env" and "\<forall>p. transcriber env p = None"
  proof -
    have ok: "fst (process_rows env c rs st) = Inr ()"
      using that(1,2,3) by (rule process_rows_no_raise)
    have last: "get_offset (conn (snd (process_rows env c rs st))) c = col_id (last rs)" if "rs \<noteq> []"
      using ok that by (rule process_rows_completed)
    have kept: "pending (snd (process_rows env c rs st)) = pending st"
      using that(3,4) by (rule process_rows_keep_pending)
    from ok last kept show ?thesis
      by blast
  qed
  have handled: "process_rows env c (r # rest) st = process_rows env c rest (snd (process_row env c r st))
      \<and> get_offset (conn (snd (process_row env c r st))) c = col_id r"
    if "fst (process_row env c r st) = Inr ()"
  proof (cases rule: process_row_cases [of env c r st])
    case (raised e' st1)
    with that show ?thesis by simp
  next
    case (handled st1)
    then show ?thesis by simp
  qed
  have raised: "process_rows env c (r # rest) st = (Inl e, snd (process_row env c r st))
      \<and> conn (snd (process_row env c r st)) = conn st"
    if "fst (process_row env c r st) = Inl e"
  proof (cases rule: process_row_cases [of env c r st])
    case (raised e' st1)
    with that show ?thesis by simp
  next
    case (handled st1)
    with that show ?thesis by simp
  qed
  show ?thesis
    using failing handled raised by blast
qed

text \<open>
  With a transcriber that returns nothing and an auth script that fails, a voice event and
  a code are both handled, the offset ends at 2 and the pending request is as it was.
  Three rows raise, and the batch that starts with one of them ends there: attachments
  that are bare file names (\<open>AttributeError\<close>), an attachment whose name the file system
  refuses (\<open>OSError\<close>), and a valid code when the agent prints a list
  (\<open>AttributeError\<close>, with the code used and the request still pending).
\<close>

theorem consumer_loop_continues_unless_raised_witness:
  "list_all well_shaped_row
     [example_row 1 TARGET_USER [] voice_attachment, example_row 2 TARGET_USER ''0451'' (JArr [])]
   \<and> list_all (probes_quiet failing_env)
     [example_row 1 TARGET_USER [] voice_attachment, example_row 2 TARGET_USER ''0451'' (JArr [])]
   \<and> \<not> auth_script_runs failing_env \<and> (\<forall>p. transcriber failing_env p = None)
   \<and> fst (process_rows failing_env ''sigpro-main''
        [example_row 1 TARGET_USER [] voice_attachment, example_row 2 TARGET_USER ''0451'' (JArr [])]
        example_waiting) = Inr ()
   \<and> get_offset (conn (snd (process_rows failing_env ''sigpro-main''
        [example_row 1 TARGET_USER [] voice_attachment, example_row 2 TARGET_USER ''0451'' (JArr [])]
        example_waiting))) ''sigpro-main'' = 2
   \<and> pending (snd (process_rows failing_env ''sigpro-main''
        [example_row 1 TARGET_USER [] voice_attachment, example_row 2 TARGET_USER ''0451'' (JArr [])]
        example_waiting)) = example_pending
   \<and> fst (process_rows example_sigpro_env ''sigpro-main''
        [example_row 3 TARGET_USER [] (JArr [JStr ''new.ogg'']), example_row 4 TARGET_USER [] voice_attachment]
        example_idle) = Inl AttributeError
   \<and> well_shaped_row (example_row 5 TARGET_USER [] long_name_attachment)
   \<and> fst (process_rows example_sigpro_env ''sigpro-main''
        [example_row 5 TARGET_USER [] long_name_attachment, example_row 6 TARGET_USER [] voice_attachment]
        example_idle) = Inl OSError
   \<and> well_shaped_row (example_row 7 TARGET_USER ''0451'' (JArr []))
   \<and> fst (process_rows list_agent_env ''sigpro-main''
        [example_row 7 TARGET_USER ''0451'' (JArr []), example_row 8 TARGET_USER [] (JArr [])]
        example_waiting) = Inl AttributeError
   \<and> pending (snd (process_rows list_agent_env ''sigpro-main''
        [example_row 7 TARGET_USER ''0451'' (JArr []), example_row 8 TARGET_USER [] (JArr [])]
        example_waiting)) = example_pending
   \<and> auth_state (snd (process_rows list_agent_env ''sigpro-main''
        [example_row 7 TARGET_USER ''0451'' (JArr []), example_row 8 TARGET_USER [] (JArr [])]
        example_waiting)) = Content (JObj [])"
proof -
  let ?rs = "[example_row 1 TARGET_USER [] voice_attachment, example_row 2 TARGET_USER ''0451'' (JArr [])]"
  let ?bare = "example_row 3 TARGET_USER [] (JArr [JStr ''new.ogg''])"
  let ?long = "example_row 5 TARGET_USER [] long_name_attachment"
  let ?code = "example_row 7 TARGET_USER ''0451'' (JArr [])"
  have shaped: "list_all well_shaped_row ?rs"
    by code_simp
  have quiet: "list_all (probes_quiet failing_env) ?rs"
    by code_simp
  have fails: "\<not> auth_script_runs failing_env" "\<forall>p. transcriber failing_env p = None"
    by (simp_all add: failing_env_def)
  have lst: "col_id (last ?rs) = 2"
    by code_simp
  have pend: "pending example_waiting = example_pending"
    by (simp add: example_waiting_def)
  note t = consumer_loop_continues_unless_raised [where env = failing_env and c = "''sigpro-main''"
      and rs = ?rs and st = example_waiting]
  from t shaped quiet fails
  have ok: "fst (process_rows failing_env ''sigpro-main'' ?rs example_waiting) = Inr ()"
    and off: "get_offset (conn (snd (process_rows failing_env ''sigpro-main'' ?rs example_waiting))) ''sigpro-main''
        = col_id (last ?rs)"
    and kept: "pending (snd (process_rows failing_env ''sigpro-main'' ?rs example_waiting)) = pending example_waiting"
    by blast+
  have r1: "fst (process_row example_sigpro_env ''sigpro-main'' ?bare example_idle) = Inl AttributeError"
    by code_simp
  have r2: "fst (process_row example_sigpro_env ''sigpro-main'' ?long example_idle) = Inl OSError"
    by code_simp
  have r3: "fst (process_row list_agent_env ''sigpro-main'' ?code example_waiting) = Inl AttributeError"
    by code_simp
  have s2: "well_shaped_row ?long" and s3: "well_shaped_row ?code"
    by code_simp+
  have p3: "pending (snd (process_row list_agent_env ''sigpro-main'' ?code example_waiting)) = example_pending"
    by code_simp
  have a3: "auth_state (snd (process_row list_agent_env ''sigpro-main'' ?code example_waiting)) = Content (JObj [])"
    by code_simp
  note u1 = consumer_loop_continues_unless_raised [where env = example_sigpro_env and c = "''sigpro-main''"
      and st = example_idle and r = ?bare and e = AttributeError
      and rest = "[example_row 4 TARGET_USER [] voice_attachment]"]
  note u2 = consumer_loop_continues_unless_raised [where env = example_sigpro_env and c = "''sigpro-main''"
      and st = example_idle and r = ?long and e = OSError
      and rest = "[example_row 6 TARGET_USER [] voice_attachment]"]
  note u3 = consumer_loop_continues_unless_raised [where env = list_agent_env and c = "''sigpro-main''"
      and st = example_waiting and r = ?code and e = AttributeError
      and rest = "[example_row 8 TARGET_USER [] (JArr [])]"]
  from u1 r1 have e1: "process_rows example_sigpro_env ''sigpro-main''
      [?bare, example_row 4 TARGET_USER [] voice_attachment] example_idle
      = (Inl AttributeError, snd (process_row example_sigpro_env ''sigpro-main'' ?bare example_idle))"
    by blast
  from u2 r2 have e2: "process_rows example_sigpro_env ''sigpro-main''
      [?long, example_row 6 TARGET_USER [] voice_attachment] example_idle
      = (Inl OSError, snd (process_row example_sigpro_env ''sigpro-main'' ?long example_idle))"
    by blast
  from u3 r3 have e3: "process_rows list_agent_env ''sigpro-main''
      [?code, example_row 8 TARGET_USER [] (JArr [])] example_waiting
      = (Inl AttributeError, snd (process_row list_agent_env ''sigpro-main'' ?code example_waiting))"
    by blast
  from shaped quiet fails ok off lst kept pend e1 s2 e2 s3 e3 p3 a3 show ?thesis
    by simp
qed

text \<open>
  The claim fails on a batch of two events of the authorized sender, the first with its
  attachment given as a bare file name: the run ends with \<open>AttributeError\<close> at the
  first row, the second row is not handled (no pending file, nothing sent, offset still
  0), though handled alone it creates a pending request.
\<close>

theorem consumer_main_aborts_batch_counterexample:
  "map_sum id (map col_id)
     (fetch_events (conn example_idle) (get_offset (conn example_idle) ''sigpro-main'') 100) = Inr [1, 2]
   \<and> map attachments_json (signal_events (conn example_idle)) = [JArr [JStr ''new.ogg''], voice_attachment]
   \<and> fst (consumer_main example_sigpro_env ''sigpro-main'' 100 example_idle) = Inl AttributeError
   \<and> get_offset (conn (snd (consumer_main example_sigpro_env ''sigpro-main'' 100 example_idle))) ''sigpro-main'' = 0
   \<and> pending (snd (consumer_main example_sigpro_env ''sigpro-main'' 100 example_idle)) = NoFile
   \<and> outbox (snd (consumer_main example_sigpro_env ''sigpro-main'' 100 example_idle)) = []
   \<and> pending_exists (snd (process_rows example_sigpro_env ''sigpro-main''
        (tl (signal_events (conn example_idle))) example_idle))"
  by code_simp

subsection \<open>The pending request of the loop script\<close>

lemma generate_auth_code_code: "fst (generate_auth_code env st) = fst (generate_auth_code env st')"
  by (simp add: generate_auth_code_def Let_def split: prod.splits)

lemma pending_generate_auth_code [simp]: "pending (snd (generate_auth_code env st)) = pending st"
  by (simp add: generate_auth_code_def Let_def split: prod.splits)

lemma pending_send_message [simp]: "pending (send_message ch n st) = pending st"
  by (simp add: send_message_def)

text \<open>
  C1. The single pending request is guarded in \<open>handle_voice_event\<close> of the consumer,
  which returns at once when the pending file exists. \<open>_process_new_voice_note\<close> of
  \<open>sigpro_loop.py\<close> has no such guard: whenever it finds a new voice file, gets a
  transcript and a code, the pending file afterwards holds the new transcript, whatever
  it held before.
\<close>

theorem voice_note_replaces_pending_request:
  fixes env :: sigpro_env and st :: sigpro_state and name heard c :: string and r :: row
  assumes "fst (find_newest_unprocessed_attachment env st) = Some name"
    and "transcribe env (ATTACHMENT_DIR @ ''/'' @ name) = Some heard"
    and "fst (generate_auth_code env st) = Some c"
  shows "pending (snd (process_new_voice_note env st)) =
           Content (JObj [(''transcript'', JStr heard), (''source_file'', JStr name),
                          (''created_at'', JInt (int_of_time (time_now env))),
                          (''expires_in_sec'', JInt 300)])
       \<and> (pending_exists st \<longrightarrow> handle_voice_event env r st = (Inr (), st))"
proof -
  obtain st1 where f: "find_newest_unprocessed_attachment env st = (Some name, st1)"
    using assms(1) by (cases "find_newest_unprocessed_attachment env st") simp
  let ?st2 = "st1\<lparr>last_attachment := Some name\<rparr>"
  have "fst (generate_auth_code env ?st2) = Some c"
    using assms(3) generate_auth_code_code [of env ?st2 st] by simp
  then obtain st3 where g: "generate_auth_code env ?st2 = (Some c, st3)"
    by (cases "generate_auth_code env ?st2") simp
  have "pending (snd (process_new_voice_note env st)) =
           Content (JObj [(''transcript'', JStr heard), (''source_file'', JStr name),
                          (''created_at'', JInt (int_of_time (time_now env))),
                          (''expires_in_sec'', JInt 300)])"
    using f g assms(2)
    by (simp add: process_new_voice_note_def Let_def store_pending_transcript_loop_def)
  moreover have "handle_voice_event env r st = (Inr (), st)" if "pending_exists st"
    using that by (rule handle_voice_event_pending_noop)
  ultimately show ?thesis
    by simp
qed

text \<open>
  The request "open the door" is pending when the voice note new.ogg arrives: the loop
  script replaces it by "lights on", the consumer leaves it.
\<close>

theorem voice_note_replaces_pending_request_witness:
  "pending_exists example_waiting
   \<and> pending example_waiting = example_pending
   \<and> pending_transcript (pending example_waiting) = ''open the door''
   \<and> fst (find_newest_unprocessed_attachment example_sigpro_env example_waiting) = Some ''new.ogg''
   \<and> pending (snd (process_new_voice_note example_sigpro_env example_waiting)) =
       Content (JObj [(''transcript'', JStr ''lights on''), (''source_file'', JStr ''new.ogg''),
                      (''created_at'', JInt 1200), (''expires_in_sec'', JInt 300)])
   \<and> pending (snd (handle_voice_event example_sigpro_env (example_row 1 TARGET_USER [] voice_attachment)
        example_waiting)) = example_pending"
proof -
  have ex: "pending_exists example_waiting"
    by code_simp
  have p: "pending example_waiting = example_pending"
    by (simp add: example_waiting_def)
  have tr: "pending_transcript (pending example_waiting) = ''open the door''"
    by code_simp
  have f: "fst (find_newest_unprocessed_attachment example_sigpro_env example_waiting) = Some ''new.ogg''"
    by code_simp
  have t: "transcribe example_sigpro_env (ATTACHMENT_DIR @ ''/'' @ ''new.ogg'') = Some ''lights on''"
    by code_simp
  have g: "fst (generate_auth_code example_sigpro_env example_waiting) = Some ''0007''"
    by code_simp
  have now: "int_of_time (time_now example_sigpro_env) = 1200"
    by code_simp
  note v = voice_note_replaces_pending_request [OF f t g,
      where r = "example_row 1 TARGET_USER [] voice_attachment"]
  from v now
  have a: "pending (snd (process_new_voice_note example_sigpro_env example_waiting)) =
       Content (JObj [(''transcript'', JStr ''lights on''), (''source_file'', JStr ''new.ogg''),
                      (''created_at'', JInt 1200), (''expires_in_sec'', JInt 300)])"
    by simp
  from v ex p
  have b: "pending (snd (handle_voice_event example_sigpro_env (example_row 1 TARGET_USER [] voice_attachment)
        example_waiting)) = example_pending"
    by simp
  from ex p tr f a b show ?thesis
    by blast
qed
end
